theory Spec2Isabelle
  imports Complex_Main
begin

section \<open>Values of the rendering library\<close>

text \<open>
  The sandbox keeps its lights and objects inside the scene graph of the rendering
  library. The library's objects are heap objects: the registry maps, the scene and the
  controllers' helper fields all hold references to them. The model keeps them in an
  explicit heap, addressed by natural numbers.

  Numbers of the source are IEEE doubles. The model uses \<open>real\<close>: the controllers only
  store, copy and compare the numbers they are given; the one place that computes with
  them is the normalisation of an imported model. The counters are numbers that count the
  adds from zero; on integers below \<open>2^53\<close> the arithmetic of doubles is exact and
  the template literal prints them in decimal, so the counters are \<open>nat\<close>.
\<close>

type_synonym ref = nat

datatype Vector3 = Vector3 (vx: real) (vy: real) (vz: real)

datatype Euler = Euler (ex: real) (ey: real) (ez: real)

text \<open>A colour is kept as the argument its constructor (or \<open>set\<close>) was given.\<close>

datatype Color = ColorHex nat | ColorStyle string

datatype Geometry =
    BoxGeometry real real real
  | SphereGeometry real nat nat
  | CylinderGeometry real real real nat
  | TorusGeometry real real nat nat
  | PlaneGeometry real real

record MeshStandardMaterial =
  m_color :: Color
  m_roughness :: real
  m_metalness :: real
  m_doubleSide :: bool

text \<open>
  The classes of the library that the source instantiates or receives from the loader.
  \<open>Group\<close> is the class of \<open>gltf.scene\<close>, the root of an imported model.
\<close>

datatype ObjectClass =
    AmbientLight | DirectionalLight | PointLight | SpotLight
  | Mesh | Group
  | DirectionalLightHelper | PointLightHelper | SpotLightHelper
  | GridHelper | AxesHelper

text \<open>
  \<open>x instanceof THREE.Mesh\<close>: in the library the helper of a point light is itself a
  mesh (a small wireframe sphere); the other helpers and groups are not.
\<close>

definition instanceof_Mesh :: "ObjectClass \<Rightarrow> bool" where
  "instanceof_Mesh c = (c = Mesh \<or> c = PointLightHelper)"

text \<open>
  One record for every object of the scene graph, with the fields the source reads or
  writes. Fields that a class does not use keep the value the constructor left there.
  Each mesh of the source gets a material of its own, so the material is kept inside the
  object.
\<close>

record Object3D =
  cls :: ObjectClass
  o_position :: Vector3
  o_rotation :: Euler
  o_scale :: Vector3
  o_castShadow :: bool
  o_receiveShadow :: bool
  o_color :: Color
  o_intensity :: real
  o_angle :: real
  o_penumbra :: real
  o_geometry :: "Geometry option"
  o_material :: MeshStandardMaterial
  o_light :: "ref option"

text \<open>What the library's constructors leave in a new object of class \<open>c\<close>.\<close>

definition Object3D_new :: "ObjectClass \<Rightarrow> Object3D" where
  "Object3D_new c =
     \<lparr> cls = c,
       o_position = Vector3 0 0 0,
       o_rotation = Euler 0 0 0,
       o_scale = Vector3 1 1 1,
       o_castShadow = False,
       o_receiveShadow = False,
       o_color = ColorHex 0xffffff,
       o_intensity = 1,
       o_angle = pi / 3,
       o_penumbra = 0,
       o_geometry = None,
       o_material = \<lparr> m_color = ColorHex 0xffffff, m_roughness = 1,
                      m_metalness = 0, m_doubleSide = False \<rparr>,
       o_light = None \<rparr>"

text \<open>\<open>new THREE.XLight(color, intensity)\<close>.\<close>

definition Light_new :: "ObjectClass \<Rightarrow> Color \<Rightarrow> real \<Rightarrow> Object3D" where
  "Light_new c col intensity = (Object3D_new c)\<lparr> o_color := col, o_intensity := intensity \<rparr>"

text \<open>\<open>new THREE.Mesh(geometry, material)\<close>.\<close>

definition Mesh_new :: "Geometry \<Rightarrow> MeshStandardMaterial \<Rightarrow> Object3D" where
  "Mesh_new g m = (Object3D_new Mesh)\<lparr> o_geometry := Some g, o_material := m \<rparr>"

text \<open>\<open>new THREE.XLightHelper(light, ...)\<close>: the helper keeps a reference to its light.\<close>

definition Helper_new :: "ObjectClass \<Rightarrow> ref \<Rightarrow> Object3D" where
  "Helper_new c light = (Object3D_new c)\<lparr> o_light := Some light \<rparr>"

section \<open>Identifiers\<close>

text \<open>
  A template literal \<open>`${type}_${count}`\<close> prints the counter in decimal.
\<close>

definition digit_char :: "nat \<Rightarrow> char" where
  "digit_char d = ''0123456789'' ! d"

fun number_toString :: "nat \<Rightarrow> string" where
  "number_toString n =
     (if n < 10 then [digit_char n]
      else number_toString (n div 10) @ [digit_char (n mod 10)])"

declare number_toString.simps [simp del]

section \<open>The metadata records of the controllers\<close>

datatype LightType = ambient | directional | point | spot

text \<open>The string a \<open>LightType\<close> is in the source.\<close>

fun LightType_string :: "LightType \<Rightarrow> string" where
  "LightType_string ambient = ''ambient''"
| "LightType_string directional = ''directional''"
| "LightType_string point = ''point''"
| "LightType_string spot = ''spot''"

text \<open>An optional field of the interface is an \<open>option\<close>: \<open>None\<close> when the field is absent.\<close>

record LightData =
  ld_id :: string
  ld_type :: LightType
  ld_color :: string
  ld_intensity :: real
  ld_position :: "Vector3 option"
  ld_target :: "Vector3 option"
  ld_castShadow :: "bool option"
  ld_helper :: "ref option"

record ObjectData =
  od_id :: string
  od_type :: string
  od_position :: Vector3
  od_rotation :: Euler
  od_scale :: Vector3
  od_color :: string
  od_roughness :: real
  od_metalness :: real
  od_isCustomModel :: "bool option"
  od_modelUrl :: "string option"

section \<open>The state of the application\<close>

text \<open>
  What the handlers do outside the maps is kept as a trace: re-rendering a panel,
  refreshing a helper, releasing an object URL, writing to the console.
\<close>

datatype Effect =
    RenderLightUI
  | RenderObjectUI
  | HelperUpdate ref
  | CreateObjectURL string
  | RevokeObjectURL string
  | ConsoleError string

text \<open>
  The fields of \<open>SceneManager\<close> (\<open>scene\<close>, \<open>sm_lights\<close>, \<open>sm_objects\<close>), of
  \<open>LightController\<close> (\<open>lc_lights\<close>, \<open>lightCounter\<close>) and of \<open>ObjectController\<close>
  (\<open>oc_objects\<close>, \<open>objectCounter\<close>, \<open>modelCounter\<close>), over the heap of the library's
  objects. Camera, renderer and orbit controls are not modelled.

  \<open>lc_panel\<close> and \<open>oc_panel\<close> are the two panels as \<open>renderUI\<close> last built
  them: the records whose controls exist, with the values their closures captured.
  \<open>loading\<close> are the model loads in flight, each with the identifier and the object
  URL its callbacks captured.
\<close>

record App =
  heap :: "ref \<Rightarrow> Object3D"
  nextRef :: ref
  scene :: "ref list"
  sm_lights :: "string \<rightharpoonup> ref"
  sm_objects :: "string \<rightharpoonup> ref"
  lc_lights :: "string \<rightharpoonup> LightData"
  lightCounter :: "LightType \<Rightarrow> nat"
  lc_panel :: "string \<rightharpoonup> LightData"
  oc_objects :: "string \<rightharpoonup> ObjectData"
  oc_panel :: "string \<rightharpoonup> ObjectData"
  objectCounter :: nat
  modelCounter :: nat
  loading :: "(string \<times> string) list"
  effects :: "Effect list"

text \<open>\<open>new\<close>: the object is stored at the next free address.\<close>

definition new_object :: "Object3D \<Rightarrow> App \<Rightarrow> ref \<times> App" where
  "new_object ob s =
     (nextRef s, s\<lparr> heap := (heap s)(nextRef s := ob), nextRef := nextRef s + 1 \<rparr>)"

text \<open>
  \<open>scene.add(x)\<close> and \<open>scene.remove(x)\<close> of the library, on the list of the scene's
  children: \<open>add\<close> appends the object, taking it out of its old place first.
\<close>

definition scene_add :: "ref \<Rightarrow> App \<Rightarrow> App" where
  "scene_add x s = s\<lparr> scene := filter (\<lambda>y. y \<noteq> x) (scene s) @ [x] \<rparr>"

definition scene_remove :: "ref \<Rightarrow> App \<Rightarrow> App" where
  "scene_remove x s = s\<lparr> scene := filter (\<lambda>y. y \<noteq> x) (scene s) \<rparr>"

definition log_effect :: "Effect \<Rightarrow> App \<Rightarrow> App" where
  "log_effect e s = s\<lparr> effects := effects s @ [e] \<rparr>"

section \<open>SceneManager\<close>

text \<open>
  Each method returns its result and the state it leaves. An object is always truthy, so
  \<open>if (light)\<close> asks whether the map has an entry.
\<close>

definition SceneManager_addLight :: "string \<Rightarrow> ref \<Rightarrow> App \<Rightarrow> ref \<times> App" where
  "SceneManager_addLight i light s =
     (light, scene_add light (s\<lparr> sm_lights := (sm_lights s)(i \<mapsto> light) \<rparr>))"

definition SceneManager_removeLight :: "string \<Rightarrow> App \<Rightarrow> bool \<times> App" where
  "SceneManager_removeLight i s =
     (case sm_lights s i of
        Some light \<Rightarrow>
          (let s1 = scene_remove light s
           in (True, s1\<lparr> sm_lights := (sm_lights s1)(i := None) \<rparr>))
      | None \<Rightarrow> (False, s))"

definition SceneManager_getLight :: "string \<Rightarrow> App \<Rightarrow> ref option" where
  "SceneManager_getLight i s = sm_lights s i"

definition SceneManager_addObject :: "string \<Rightarrow> ref \<Rightarrow> App \<Rightarrow> ref \<times> App" where
  "SceneManager_addObject i object s =
     (object, scene_add object (s\<lparr> sm_objects := (sm_objects s)(i \<mapsto> object) \<rparr>))"

definition SceneManager_removeObject :: "string \<Rightarrow> App \<Rightarrow> bool \<times> App" where
  "SceneManager_removeObject i s =
     (case sm_objects s i of
        Some object \<Rightarrow>
          (let s1 = scene_remove object s
           in (True, s1\<lparr> sm_objects := (sm_objects s1)(i := None) \<rparr>))
      | None \<Rightarrow> (False, s))"

definition SceneManager_getObject :: "string \<Rightarrow> App \<Rightarrow> ref option" where
  "SceneManager_getObject i s = sm_objects s i"

text \<open>\<open>setupGrid\<close>, \<open>setupDefaultLighting\<close>, \<open>setupDefaultObjects\<close> and \<open>init\<close>.\<close>

definition setupGrid :: "App \<Rightarrow> App" where
  "setupGrid s =
     (let (gridHelper, s1) = new_object (Object3D_new GridHelper) s;
          s2 = scene_add gridHelper s1;
          (axesHelper, s3) = new_object (Object3D_new AxesHelper) s2
      in scene_add axesHelper s3)"

definition setupDefaultLighting :: "App \<Rightarrow> App" where
  "setupDefaultLighting s =
     (let (ambientLight, s1) = new_object (Light_new AmbientLight (ColorHex 0x404040) 0.5) s
      in snd (SceneManager_addLight ''ambient_default'' ambientLight s1))"

definition setupDefaultObjects :: "App \<Rightarrow> App" where
  "setupDefaultObjects s =
     (let boxMaterial = \<lparr> m_color = ColorHex 0x888888, m_roughness = 0.5,
                          m_metalness = 0.5, m_doubleSide = False \<rparr>;
          (box, s1) = new_object
             ((Mesh_new (BoxGeometry 1 1 1) boxMaterial)
                \<lparr> o_castShadow := True, o_receiveShadow := True,
                  o_position := Vector3 0 0.5 0 \<rparr>) s;
          s2 = snd (SceneManager_addObject ''box_default'' box s1);
          planeMaterial = \<lparr> m_color = ColorHex 0xaaaaaa, m_roughness = 0.8,
                            m_metalness = 0.2, m_doubleSide = True \<rparr>;
          (plane, s3) = new_object
             ((Mesh_new (PlaneGeometry 20 20) planeMaterial)
                \<lparr> o_rotation := Euler (- pi / 2) 0 0, o_receiveShadow := True \<rparr>) s2
      in snd (SceneManager_addObject ''plane_default'' plane s3))"

definition SceneManager_init :: "App \<Rightarrow> App" where
  "SceneManager_init s = setupDefaultObjects (setupDefaultLighting (setupGrid s))"

section \<open>LightController\<close>

text \<open>
  \<open>renderUI\<close> rebuilds the panel from the metadata map: one group of controls for each
  record. The DOM itself is not modelled; the panel is the snapshot of the records the
  controls were built from.
\<close>

definition LightController_renderUI :: "App \<Rightarrow> App" where
  "LightController_renderUI s = log_effect RenderLightUI (s\<lparr> lc_panel := lc_lights s \<rparr>)"

definition LightController_init :: "App \<Rightarrow> App" where
  "LightController_init s = LightController_renderUI s"

text \<open>
  The \<open>switch\<close> of \<open>addLight\<close>: the light, its helper (if the kind has one), the
  metadata record and the state. The \<open>default\<close> branch cannot be reached from a
  \<open>LightType\<close>.
\<close>

definition addLight_switch ::
    "LightType \<Rightarrow> string \<Rightarrow> LightData \<Rightarrow> App \<Rightarrow> ref \<times> ref option \<times> LightData \<times> App" where
  "addLight_switch ty i lightData s =
     (case ty of
        ambient \<Rightarrow>
          (let (light, s1) = new_object (Light_new AmbientLight (ColorHex 0xffffff) 1) s
           in (light, None, lightData, s1))
      | directional \<Rightarrow>
          (let (light, s1) = new_object
                 ((Light_new DirectionalLight (ColorHex 0xffffff) 1)
                    \<lparr> o_position := Vector3 5 5 5, o_castShadow := True \<rparr>) s;
               (helper, s2) = new_object (Helper_new DirectionalLightHelper light) s1;
               s3 = snd (SceneManager_addObject (i @ ''_helper'') helper s2)
           in (light, Some helper,
               lightData\<lparr> ld_position := Some (Vector3 5 5 5), ld_castShadow := Some True \<rparr>,
               s3))
      | point \<Rightarrow>
          (let (light, s1) = new_object
                 ((Light_new PointLight (ColorHex 0xffffff) 1)
                    \<lparr> o_position := Vector3 2 2 2 \<rparr>) s;
               (helper, s2) = new_object (Helper_new PointLightHelper light) s1;
               s3 = snd (SceneManager_addObject (i @ ''_helper'') helper s2)
           in (light, Some helper, lightData\<lparr> ld_position := Some (Vector3 2 2 2) \<rparr>, s3))
      | spot \<Rightarrow>
          (let (light, s1) = new_object
                 ((Light_new SpotLight (ColorHex 0xffffff) 1)
                    \<lparr> o_position := Vector3 2 5 2, o_castShadow := True,
                      o_angle := pi / 6, o_penumbra := 0.2 \<rparr>) s;
               (helper, s2) = new_object (Helper_new SpotLightHelper light) s1;
               s3 = snd (SceneManager_addObject (i @ ''_helper'') helper s2)
           in (light, Some helper,
               lightData\<lparr> ld_position := Some (Vector3 2 5 2), ld_castShadow := Some True \<rparr>,
               s3)))"

text \<open>The identifier \<open>addLight\<close> gives the next light of a kind.\<close>

definition LightController_newId :: "LightType \<Rightarrow> App \<Rightarrow> string" where
  "LightController_newId ty s =
     LightType_string ty @ ''_'' @ number_toString (lightCounter s ty + 1)"

definition LightController_addLight :: "LightType \<Rightarrow> App \<Rightarrow> App" where
  "LightController_addLight ty s =
     (let count = lightCounter s ty + 1;
          i = LightController_newId ty s;
          s0 = s\<lparr> lightCounter := (lightCounter s)(ty := count) \<rparr>;
          lightData = \<lparr> ld_id = i, ld_type = ty, ld_color = ''#ffffff'', ld_intensity = 1,
                        ld_position = None, ld_target = None, ld_castShadow = None,
                        ld_helper = None \<rparr>;
          (light, helper, lightData1, s1) = addLight_switch ty i lightData s0;
          s2 = snd (SceneManager_addLight i light s1);
          lightData2 = lightData1\<lparr> ld_helper := helper \<rparr>;
          s3 = s2\<lparr> lc_lights := (lc_lights s2)(i \<mapsto> lightData2) \<rparr>
      in LightController_renderUI s3)"

definition LightController_removeLight :: "string \<Rightarrow> App \<Rightarrow> App" where
  "LightController_removeLight i s =
     (case lc_lights s i of
        Some lightData \<Rightarrow>
          (let s1 = (case ld_helper lightData of
                       Some h \<Rightarrow> snd (SceneManager_removeObject (i @ ''_helper'') s)
                     | None \<Rightarrow> s);
               s2 = snd (SceneManager_removeLight i s1);
               s3 = s2\<lparr> lc_lights := (lc_lights s2)(i := None) \<rparr>
           in LightController_renderUI s3)
      | None \<Rightarrow> s)"

text \<open>
  \<open>helper.update()\<close>, guarded by the three \<open>instanceof\<close> tests. What the library
  redraws is not modelled; the call is kept in the trace.
\<close>

definition refresh_helper :: "LightData \<Rightarrow> App \<Rightarrow> App" where
  "refresh_helper lightData s =
     (case ld_helper lightData of
        Some h \<Rightarrow>
          (if cls (heap s h) = DirectionalLightHelper \<or> cls (heap s h) = PointLightHelper
              \<or> cls (heap s h) = SpotLightHelper
           then log_effect (HelperUpdate h) s else s)
      | None \<Rightarrow> s)"

text \<open>
  The four edits. Every light of the library has a \<open>color\<close> and, as every object of
  the scene graph, a \<open>position\<close>, so the two \<open>in\<close> tests hold. The metadata record
  is the object stored in the map, so assigning to its field changes the map's entry.
\<close>

definition updateLightColor :: "string \<Rightarrow> string \<Rightarrow> App \<Rightarrow> App" where
  "updateLightColor i color s =
     (case (SceneManager_getLight i s, lc_lights s i) of
        (Some light, Some lightData) \<Rightarrow>
          (let s1 = s\<lparr> heap := (heap s)(light := (heap s light)\<lparr> o_color := ColorStyle color \<rparr>) \<rparr>;
               s2 = s1\<lparr> lc_lights := (lc_lights s1)(i \<mapsto> lightData\<lparr> ld_color := color \<rparr>) \<rparr>
           in refresh_helper lightData s2)
      | _ \<Rightarrow> s)"

definition updateLightIntensity :: "string \<Rightarrow> real \<Rightarrow> App \<Rightarrow> App" where
  "updateLightIntensity i intensity s =
     (case (SceneManager_getLight i s, lc_lights s i) of
        (Some light, Some lightData) \<Rightarrow>
          (let s1 = s\<lparr> heap := (heap s)(light := (heap s light)\<lparr> o_intensity := intensity \<rparr>) \<rparr>
           in s1\<lparr> lc_lights := (lc_lights s1)(i \<mapsto> lightData\<lparr> ld_intensity := intensity \<rparr>) \<rparr>)
      | _ \<Rightarrow> s)"

definition updateLightPosition :: "string \<Rightarrow> Vector3 \<Rightarrow> App \<Rightarrow> App" where
  "updateLightPosition i position s =
     (case (SceneManager_getLight i s, lc_lights s i) of
        (Some light, Some lightData) \<Rightarrow>
          (let s1 = s\<lparr> heap := (heap s)(light := (heap s light)\<lparr> o_position := position \<rparr>) \<rparr>;
               s2 = s1\<lparr> lc_lights :=
                         (lc_lights s1)(i \<mapsto> lightData\<lparr> ld_position := Some position \<rparr>) \<rparr>
           in refresh_helper lightData s2)
      | _ \<Rightarrow> s)"

definition updateShadowCasting :: "string \<Rightarrow> bool \<Rightarrow> App \<Rightarrow> App" where
  "updateShadowCasting i castShadow s =
     (case (SceneManager_getLight i s, lc_lights s i) of
        (Some light, Some lightData) \<Rightarrow>
          (if cls (heap s light) = DirectionalLight \<or> cls (heap s light) = SpotLight
           then
             (let s1 = s\<lparr> heap :=
                           (heap s)(light := (heap s light)\<lparr> o_castShadow := castShadow \<rparr>) \<rparr>
              in s1\<lparr> lc_lights :=
                       (lc_lights s1)(i \<mapsto> lightData\<lparr> ld_castShadow := Some castShadow \<rparr>) \<rparr>)
           else s)
      | _ \<Rightarrow> s)"

text \<open>
  The handler of one position slider (\<open>index\<close> 0, 1, 2 for X, Y, Z), built by
  \<open>createPositionControls\<close> from a record: the other two coordinates are those of the
  \<open>position\<close> the closure captured when the panel was built.
\<close>

definition lightPosition_oninput :: "LightData \<Rightarrow> nat \<Rightarrow> real \<Rightarrow> App \<Rightarrow> App" where
  "lightPosition_oninput lightData index newValue s =
     (let position = (case ld_position lightData of Some p \<Rightarrow> p | None \<Rightarrow> Vector3 0 0 0);
          newPosition = Vector3
            (if index = 0 then newValue else vx position)
            (if index = 1 then newValue else vy position)
            (if index = 2 then newValue else vz position)
      in updateLightPosition (ld_id lightData) newPosition s)"

section \<open>ObjectController\<close>

datatype Error = UnsupportedObjectType string

definition ObjectController_renderUI :: "App \<Rightarrow> App" where
  "ObjectController_renderUI s = log_effect RenderObjectUI (s\<lparr> oc_panel := oc_objects s \<rparr>)"

definition ObjectController_init :: "App \<Rightarrow> App" where
  "ObjectController_init s = ObjectController_renderUI s"

text \<open>The \<open>switch\<close> of \<open>addObject\<close>: the geometry of a kind, or the error it throws.\<close>

definition addObject_switch :: "string \<Rightarrow> Error + Geometry" where
  "addObject_switch ty =
     (if ty = ''box'' then Inr (BoxGeometry 1 1 1)
      else if ty = ''sphere'' then Inr (SphereGeometry 0.5 32 32)
      else if ty = ''cylinder'' then Inr (CylinderGeometry 0.5 0.5 1 32)
      else if ty = ''torus'' then Inr (TorusGeometry 0.5 0.2 16 32)
      else Inl (UnsupportedObjectType ty))"

text \<open>The identifier \<open>addObject\<close> gives the next primitive.\<close>

definition ObjectController_newId :: "string \<Rightarrow> App \<Rightarrow> string" where
  "ObjectController_newId ty s = ty @ ''_'' @ number_toString (objectCounter s + 1)"

text \<open>
  \<open>addObject\<close>; \<open>random1\<close> and \<open>random2\<close> are the two values \<open>Math.random()\<close>
  returns. The counter is incremented before the \<open>switch\<close> throws, so the state an
  error leaves has the new count.
\<close>

definition ObjectController_addObject ::
    "string \<Rightarrow> real \<Rightarrow> real \<Rightarrow> App \<Rightarrow> (Error + unit) \<times> App" where
  "ObjectController_addObject ty random1 random2 s =
     (let i = ObjectController_newId ty s;
          s0 = s\<lparr> objectCounter := objectCounter s + 1 \<rparr>
      in case addObject_switch ty of
           Inl e \<Rightarrow> (Inl e, s0)
         | Inr geometry \<Rightarrow>
             (let position = Vector3 (random1 * 4 - 2)
                               (if ty = ''cylinder'' \<or> ty = ''box'' then 0.5 else 0.5)
                               (random2 * 4 - 2);
                  rotation = Euler 0 0 0;
                  scale = Vector3 1 1 1;
                  material = \<lparr> m_color = ColorHex 0x1a75ff, m_roughness = 0.5,
                               m_metalness = 0.2, m_doubleSide = False \<rparr>;
                  (mesh, s1) = new_object
                     ((Mesh_new geometry material)
                        \<lparr> o_position := position, o_rotation := rotation, o_scale := scale,
                          o_castShadow := True, o_receiveShadow := True \<rparr>) s0;
                  s2 = snd (SceneManager_addObject i mesh s1);
                  objectData = \<lparr> od_id = i, od_type = ty, od_position = position,
                                 od_rotation = rotation, od_scale = scale,
                                 od_color = ''#1a75ff'', od_roughness = 0.5,
                                 od_metalness = 0.2, od_isCustomModel = None,
                                 od_modelUrl = None \<rparr>;
                  s3 = s2\<lparr> oc_objects := (oc_objects s2)(i \<mapsto> objectData) \<rparr>
              in (Inr (), ObjectController_renderUI s3)))"

text \<open>
  \<open>removeObject\<close>. \<open>objectData.isCustomModel && objectData.modelUrl\<close> holds when the
  flag is set and the URL is a non-empty string.
\<close>

definition ObjectController_removeObject :: "string \<Rightarrow> App \<Rightarrow> App" where
  "ObjectController_removeObject i s =
     (case oc_objects s i of
        Some objectData \<Rightarrow>
          (let s1 = snd (SceneManager_removeObject i s);
               s2 = s1\<lparr> oc_objects := (oc_objects s1)(i := None) \<rparr>;
               s3 = (case od_modelUrl objectData of
                       Some modelUrl \<Rightarrow>
                         (if od_isCustomModel objectData = Some True \<and> modelUrl \<noteq> []
                          then log_effect (RevokeObjectURL modelUrl) s2 else s2)
                     | None \<Rightarrow> s2)
           in ObjectController_renderUI s3)
      | None \<Rightarrow> s)"

text \<open>The three edits of the material, for meshes only.\<close>

definition updateObjectColor :: "string \<Rightarrow> string \<Rightarrow> App \<Rightarrow> App" where
  "updateObjectColor i color s =
     (case (SceneManager_getObject i s, oc_objects s i) of
        (Some object, Some objectData) \<Rightarrow>
          (if instanceof_Mesh (cls (heap s object)) then
             (let material = o_material (heap s object);
                  s1 = s\<lparr> heap := (heap s)(object := (heap s object)
                            \<lparr> o_material := material\<lparr> m_color := ColorStyle color \<rparr> \<rparr>) \<rparr>
              in s1\<lparr> oc_objects := (oc_objects s1)(i \<mapsto> objectData\<lparr> od_color := color \<rparr>) \<rparr>)
           else s)
      | _ \<Rightarrow> s)"

definition updateObjectRoughness :: "string \<Rightarrow> real \<Rightarrow> App \<Rightarrow> App" where
  "updateObjectRoughness i roughness s =
     (case (SceneManager_getObject i s, oc_objects s i) of
        (Some object, Some objectData) \<Rightarrow>
          (if instanceof_Mesh (cls (heap s object)) then
             (let material = o_material (heap s object);
                  s1 = s\<lparr> heap := (heap s)(object := (heap s object)
                            \<lparr> o_material := material\<lparr> m_roughness := roughness \<rparr> \<rparr>) \<rparr>
              in s1\<lparr> oc_objects :=
                       (oc_objects s1)(i \<mapsto> objectData\<lparr> od_roughness := roughness \<rparr>) \<rparr>)
           else s)
      | _ \<Rightarrow> s)"

definition updateObjectMetalness :: "string \<Rightarrow> real \<Rightarrow> App \<Rightarrow> App" where
  "updateObjectMetalness i metalness s =
     (case (SceneManager_getObject i s, oc_objects s i) of
        (Some object, Some objectData) \<Rightarrow>
          (if instanceof_Mesh (cls (heap s object)) then
             (let material = o_material (heap s object);
                  s1 = s\<lparr> heap := (heap s)(object := (heap s object)
                            \<lparr> o_material := material\<lparr> m_metalness := metalness \<rparr> \<rparr>) \<rparr>
              in s1\<lparr> oc_objects :=
                       (oc_objects s1)(i \<mapsto> objectData\<lparr> od_metalness := metalness \<rparr>) \<rparr>)
           else s)
      | _ \<Rightarrow> s)"

text \<open>The three edits of the transform, for every object.\<close>

definition updateObjectPosition :: "string \<Rightarrow> Vector3 \<Rightarrow> App \<Rightarrow> App" where
  "updateObjectPosition i position s =
     (case (SceneManager_getObject i s, oc_objects s i) of
        (Some object, Some objectData) \<Rightarrow>
          (let s1 = s\<lparr> heap := (heap s)(object := (heap s object)\<lparr> o_position := position \<rparr>) \<rparr>
           in s1\<lparr> oc_objects := (oc_objects s1)(i \<mapsto> objectData\<lparr> od_position := position \<rparr>) \<rparr>)
      | _ \<Rightarrow> s)"

definition updateObjectRotation :: "string \<Rightarrow> Euler \<Rightarrow> App \<Rightarrow> App" where
  "updateObjectRotation i rotation s =
     (case (SceneManager_getObject i s, oc_objects s i) of
        (Some object, Some objectData) \<Rightarrow>
          (let s1 = s\<lparr> heap := (heap s)(object := (heap s object)\<lparr> o_rotation := rotation \<rparr>) \<rparr>
           in s1\<lparr> oc_objects := (oc_objects s1)(i \<mapsto> objectData\<lparr> od_rotation := rotation \<rparr>) \<rparr>)
      | _ \<Rightarrow> s)"

definition updateObjectScale :: "string \<Rightarrow> Vector3 \<Rightarrow> App \<Rightarrow> App" where
  "updateObjectScale i scale s =
     (case (SceneManager_getObject i s, oc_objects s i) of
        (Some object, Some objectData) \<Rightarrow>
          (let s1 = s\<lparr> heap := (heap s)(object := (heap s object)\<lparr> o_scale := scale \<rparr>) \<rparr>
           in s1\<lparr> oc_objects := (oc_objects s1)(i \<mapsto> objectData\<lparr> od_scale := scale \<rparr>) \<rparr>)
      | _ \<Rightarrow> s)"

text \<open>
  The handlers of the sliders of one axis (\<open>index\<close> 0, 1, 2 for X, Y, Z), built by
  \<open>createPositionControls\<close>, \<open>createRotationControls\<close> and \<open>createScaleControls\<close>.
  The other two coordinates are read from the record when the slider moves. The rotation
  slider is in degrees.
\<close>

definition objectPosition_oninput :: "ObjectData \<Rightarrow> nat \<Rightarrow> real \<Rightarrow> App \<Rightarrow> App" where
  "objectPosition_oninput objectData index newValue s =
     (let newPosition = Vector3
            (if index = 0 then newValue else vx (od_position objectData))
            (if index = 1 then newValue else vy (od_position objectData))
            (if index = 2 then newValue else vz (od_position objectData))
      in updateObjectPosition (od_id objectData) newPosition s)"

definition objectRotation_oninput :: "ObjectData \<Rightarrow> nat \<Rightarrow> real \<Rightarrow> App \<Rightarrow> App" where
  "objectRotation_oninput objectData index newValue s =
     (let newRotation = Euler
            (if index = 0 then newValue * (pi / 180) else ex (od_rotation objectData))
            (if index = 1 then newValue * (pi / 180) else ey (od_rotation objectData))
            (if index = 2 then newValue * (pi / 180) else ez (od_rotation objectData))
      in updateObjectRotation (od_id objectData) newRotation s)"

definition objectScale_oninput :: "ObjectData \<Rightarrow> nat \<Rightarrow> real \<Rightarrow> App \<Rightarrow> App" where
  "objectScale_oninput objectData index newValue s =
     (let newScale = Vector3
            (if index = 0 then newValue else vx (od_scale objectData))
            (if index = 1 then newValue else vy (od_scale objectData))
            (if index = 2 then newValue else vz (od_scale objectData))
      in updateObjectScale (od_id objectData) newScale s)"

text \<open>
  \<open>URL.createObjectURL(file)\<close> is the browser's: it returns a new URL of the scheme
  \<open>blob:\<close>. The rest of the URL is the browser's choice, a parameter here.
\<close>

definition createObjectURL :: "string \<Rightarrow> string" where
  "createObjectURL uuid = ''blob:'' @ uuid"

text \<open>
  \<open>handleModelUpload\<close> up to the call of the loader, which puts the load in flight.
  The loading indicator is an element of the page and is not modelled.
\<close>

definition handleModelUpload :: "string \<Rightarrow> App \<Rightarrow> App" where
  "handleModelUpload uuid s =
     (let objectURL = createObjectURL uuid;
          s0 = log_effect (CreateObjectURL objectURL) s;
          s1 = s0\<lparr> modelCounter := modelCounter s0 + 1 \<rparr>;
          i = ''model_'' @ number_toString (modelCounter s1)
      in s1\<lparr> loading := loading s1 @ [(i, objectURL)] \<rparr>)"

text \<open>
  The success callback of the load, with the identifier and the URL it captured. The
  loader hands over \<open>gltf.scene\<close>, a new group; \<open>center\<close> and \<open>boxSize\<close> are
  the centre and the size the library measures of its bounding box. The traversal sets the shadow flags of the
  meshes below the root, which are the loader's objects and are not modelled.
\<close>

definition handleModelUpload_onLoad ::
    "string \<Rightarrow> string \<Rightarrow> Vector3 \<Rightarrow> Vector3 \<Rightarrow> App \<Rightarrow> App" where
  "handleModelUpload_onLoad i objectURL center boxSize s =
     (let (model, s1) = new_object (Object3D_new Group) s;
          position = Vector3 (- vx center) (- vy center + vy boxSize / 2) (- vz center);
          s2 = s1\<lparr> heap := (heap s1)(model := (heap s1 model)\<lparr> o_position := position \<rparr>) \<rparr>;
          maxDimension = max (max (vx boxSize) (vy boxSize)) (vz boxSize);
          s3 = (if maxDimension > 5 then
                  (let scale = 5 / maxDimension
                   in s2\<lparr> heap := (heap s2)(model := (heap s2 model)
                             \<lparr> o_scale := Vector3 scale scale scale \<rparr>) \<rparr>)
                else s2);
          s4 = snd (SceneManager_addObject i model s3);
          objectData = \<lparr> od_id = i, od_type = ''custom_model'',
                         od_position = Vector3 0 0 0, od_rotation = Euler 0 0 0,
                         od_scale = Vector3 1 1 1, od_color = ''#ffffff'',
                         od_roughness = 0.5, od_metalness = 0.2,
                         od_isCustomModel = Some True, od_modelUrl = Some objectURL \<rparr>;
          s5 = s4\<lparr> oc_objects := (oc_objects s4)(i \<mapsto> objectData) \<rparr>
      in ObjectController_renderUI s5)"

text \<open>The failure callback writes to the console and to the loading indicator.\<close>

definition handleModelUpload_onError :: "string \<Rightarrow> App \<Rightarrow> App" where
  "handleModelUpload_onError message s = log_effect (ConsoleError message) s"

section \<open>The application and its events\<close>

text \<open>
  The state the constructors of \<open>App\<close> leave: empty maps, counters at zero. Addresses
  from \<open>nextRef\<close> on are free; what the heap holds there is never read.
\<close>

definition App_new :: App where
  "App_new =
     \<lparr> heap = (\<lambda>_. Object3D_new Group),
       nextRef = 0,
       scene = [],
       sm_lights = Map.empty,
       sm_objects = Map.empty,
       lc_lights = Map.empty,
       lightCounter = (\<lambda>_. 0),
       lc_panel = Map.empty,
       oc_objects = Map.empty,
       oc_panel = Map.empty,
       objectCounter = 0,
       modelCounter = 0,
       loading = [],
       effects = [] \<rparr>"

text \<open>
  \<open>App.init\<close>: the registry sets up its default light and objects, then each panel is
  rendered. The environment controller only changes the renderer and the background of
  the scene and is left out.
\<close>

definition App_init :: "App \<Rightarrow> App" where
  "App_init s = ObjectController_init (LightController_init (SceneManager_init s))"

definition App_start :: App where
  "App_start = App_init App_new"

text \<open>The four buttons of the object panel and the string each passes to \<open>addObject\<close>.\<close>

datatype ObjectKind = Box | Sphere | Cylinder | Torus

fun ObjectKind_type :: "ObjectKind \<Rightarrow> string" where
  "ObjectKind_type Box = ''box''"
| "ObjectKind_type Sphere = ''sphere''"
| "ObjectKind_type Cylinder = ''cylinder''"
| "ObjectKind_type Torus = ''torus''"

text \<open>
  What can happen after \<open>init\<close>: an event of a control of one of the two panels, or a
  callback of the loader. A control is named by the key of the record it was built from;
  a callback by the identifier and URL of its load.
\<close>

datatype Event =
    ClickAddLight LightType
  | ClickRemoveLight string
  | ChangeLightColor string string
  | InputLightIntensity string real
  | InputLightPosition string nat real
  | ChangeLightShadow string bool
  | ClickAddObject ObjectKind real real
  | ClickRemoveObject string
  | ChangeObjectColor string string
  | InputObjectRoughness string real
  | InputObjectMetalness string real
  | InputObjectPosition string nat real
  | InputObjectRotation string nat real
  | InputObjectScale string nat real
  | UploadModel string
  | LoaderOnLoad string string Vector3 Vector3
  | LoaderOnProgress string string
  | LoaderOnError string string string

text \<open>
  The controls that exist, as \<open>createLightElement\<close> and \<open>createObjectElement\<close> build
  them: position sliders for every light but an ambient one, the shadow checkbox for
  directional and spot lights, the material controls for every object but an imported
  model. The loader calls back only for a load in flight.
\<close>

fun wired :: "App \<Rightarrow> Event \<Rightarrow> bool" where
  "wired s (ClickAddLight ty) = True"
| "wired s (ClickRemoveLight k) = (lc_panel s k \<noteq> None)"
| "wired s (ChangeLightColor k color) = (lc_panel s k \<noteq> None)"
| "wired s (InputLightIntensity k v) = (lc_panel s k \<noteq> None)"
| "wired s (InputLightPosition k index v) =
     (case lc_panel s k of
        Some lightData \<Rightarrow> ld_type lightData \<noteq> ambient \<and> index < 3
      | None \<Rightarrow> False)"
| "wired s (ChangeLightShadow k b) =
     (case lc_panel s k of
        Some lightData \<Rightarrow> ld_type lightData = directional \<or> ld_type lightData = spot
      | None \<Rightarrow> False)"
| "wired s (ClickAddObject kind random1 random2) = True"
| "wired s (ClickRemoveObject k) = (oc_panel s k \<noteq> None)"
| "wired s (ChangeObjectColor k color) =
     (case oc_panel s k of
        Some objectData \<Rightarrow> od_isCustomModel objectData \<noteq> Some True
      | None \<Rightarrow> False)"
| "wired s (InputObjectRoughness k v) =
     (case oc_panel s k of
        Some objectData \<Rightarrow> od_isCustomModel objectData \<noteq> Some True
      | None \<Rightarrow> False)"
| "wired s (InputObjectMetalness k v) =
     (case oc_panel s k of
        Some objectData \<Rightarrow> od_isCustomModel objectData \<noteq> Some True
      | None \<Rightarrow> False)"
| "wired s (InputObjectPosition k index v) = (oc_panel s k \<noteq> None \<and> index < 3)"
| "wired s (InputObjectRotation k index v) = (oc_panel s k \<noteq> None \<and> index < 3)"
| "wired s (InputObjectScale k index v) = (oc_panel s k \<noteq> None \<and> index < 3)"
| "wired s (UploadModel uuid) = True"
| "wired s (LoaderOnLoad i objectURL center boxSize) = ((i, objectURL) \<in> set (loading s))"
| "wired s (LoaderOnProgress i objectURL) = ((i, objectURL) \<in> set (loading s))"
| "wired s (LoaderOnError i objectURL message) = ((i, objectURL) \<in> set (loading s))"

text \<open>
  The record a closure of the object panel reads: the closure holds the record object
  itself, which is the one stored in the map under its identifier for as long as the map
  has one (every change of the map's keys rebuilds the panel).
\<close>

definition closure_record :: "ObjectData \<Rightarrow> App \<Rightarrow> ObjectData" where
  "closure_record objectData s =
     (case oc_objects s (od_id objectData) of Some current \<Rightarrow> current | None \<Rightarrow> objectData)"

text \<open>
  The handler of each event. An exception thrown by a handler ends the handler; the
  changes made before it stay. A load leaves \<open>loading\<close> when it succeeds or fails.
\<close>

fun handle :: "Event \<Rightarrow> App \<Rightarrow> App" where
  "handle (ClickAddLight ty) s = LightController_addLight ty s"
| "handle (ClickRemoveLight k) s =
     (case lc_panel s k of
        Some lightData \<Rightarrow> LightController_removeLight (ld_id lightData) s | None \<Rightarrow> s)"
| "handle (ChangeLightColor k color) s =
     (case lc_panel s k of
        Some lightData \<Rightarrow> updateLightColor (ld_id lightData) color s | None \<Rightarrow> s)"
| "handle (InputLightIntensity k v) s =
     (case lc_panel s k of
        Some lightData \<Rightarrow> updateLightIntensity (ld_id lightData) v s | None \<Rightarrow> s)"
| "handle (InputLightPosition k index v) s =
     (case lc_panel s k of
        Some lightData \<Rightarrow> lightPosition_oninput lightData index v s | None \<Rightarrow> s)"
| "handle (ChangeLightShadow k b) s =
     (case lc_panel s k of
        Some lightData \<Rightarrow> updateShadowCasting (ld_id lightData) b s | None \<Rightarrow> s)"
| "handle (ClickAddObject kind random1 random2) s =
     snd (ObjectController_addObject (ObjectKind_type kind) random1 random2 s)"
| "handle (ClickRemoveObject k) s =
     (case oc_panel s k of
        Some objectData \<Rightarrow> ObjectController_removeObject (od_id objectData) s | None \<Rightarrow> s)"
| "handle (ChangeObjectColor k color) s =
     (case oc_panel s k of
        Some objectData \<Rightarrow> updateObjectColor (od_id objectData) color s | None \<Rightarrow> s)"
| "handle (InputObjectRoughness k v) s =
     (case oc_panel s k of
        Some objectData \<Rightarrow> updateObjectRoughness (od_id objectData) v s | None \<Rightarrow> s)"
| "handle (InputObjectMetalness k v) s =
     (case oc_panel s k of
        Some objectData \<Rightarrow> updateObjectMetalness (od_id objectData) v s | None \<Rightarrow> s)"
| "handle (InputObjectPosition k index v) s =
     (case oc_panel s k of
        Some objectData \<Rightarrow> objectPosition_oninput (closure_record objectData s) index v s
      | None \<Rightarrow> s)"
| "handle (InputObjectRotation k index v) s =
     (case oc_panel s k of
        Some objectData \<Rightarrow> objectRotation_oninput (closure_record objectData s) index v s
      | None \<Rightarrow> s)"
| "handle (InputObjectScale k index v) s =
     (case oc_panel s k of
        Some objectData \<Rightarrow> objectScale_oninput (closure_record objectData s) index v s
      | None \<Rightarrow> s)"
| "handle (UploadModel uuid) s = handleModelUpload uuid s"
| "handle (LoaderOnLoad i objectURL center boxSize) s =
     handleModelUpload_onLoad i objectURL center boxSize
       (s\<lparr> loading := remove1 (i, objectURL) (loading s) \<rparr>)"
| "handle (LoaderOnProgress i objectURL) s = s"
| "handle (LoaderOnError i objectURL message) s =
     handleModelUpload_onError message (s\<lparr> loading := remove1 (i, objectURL) (loading s) \<rparr>)"

text \<open>An event of a control that does not exist cannot happen: it changes nothing.\<close>

definition fire :: "Event \<Rightarrow> App \<Rightarrow> App" where
  "fire e s = (if wired s e then handle e s else s)"

fun run :: "Event list \<Rightarrow> App \<Rightarrow> App" where
  "run [] s = s"
| "run (e # es) s = run es (fire e s)"

section \<open>Invariants\<close>

text \<open>The class of the light \<open>addLight\<close> creates for a kind.\<close>

fun LightType_class :: "LightType \<Rightarrow> ObjectClass" where
  "LightType_class ambient = AmbientLight"
| "LightType_class directional = DirectionalLight"
| "LightType_class point = PointLight"
| "LightType_class spot = SpotLight"

text \<open>
  The invariant of a light's metadata record: an ambient light carries neither a position
  nor a shadow flag, a directional or a spot light carries a shadow flag, a point light
  carries none.
\<close>

definition kind_invariant :: "LightData \<Rightarrow> bool" where
  "kind_invariant lightData =
     (case ld_type lightData of
        ambient \<Rightarrow> ld_position lightData = None \<and> ld_castShadow lightData = None
      | directional \<Rightarrow> ld_castShadow lightData \<noteq> None
      | point \<Rightarrow> ld_castShadow lightData = None
      | spot \<Rightarrow> ld_castShadow lightData \<noteq> None)"

text \<open>A step may allocate objects and may change the fields of an object, never its class.\<close>

definition heap_extends :: "App \<Rightarrow> App \<Rightarrow> bool" where
  "heap_extends s s' =
     (nextRef s \<le> nextRef s' \<and> (\<forall>r. r < nextRef s \<longrightarrow> cls (heap s' r) = cls (heap s r)))"

text \<open>A step that leaves the lights alone.\<close>

definition lights_frame :: "App \<Rightarrow> App \<Rightarrow> bool" where
  "lights_frame s s' =
     (sm_lights s' = sm_lights s \<and> lc_lights s' = lc_lights s \<and> lc_panel s' = lc_panel s)"

text \<open>
  What holds of the lights in every state the application reaches: the registry holds
  allocated objects; a record is stored under its own identifier, satisfies the invariant
  of its kind, and the light the registry holds under that identifier is of the record's
  kind; a control of the panel belongs to a record of the kind it was built for.
\<close>

definition lights_inv :: "App \<Rightarrow> bool" where
  "lights_inv s =
     ((\<forall>k r. sm_lights s k = Some r \<longrightarrow> r < nextRef s)
      \<and> (\<forall>k lightData. lc_lights s k = Some lightData \<longrightarrow>
            ld_id lightData = k \<and> kind_invariant lightData
            \<and> (\<forall>light. sm_lights s k = Some light \<longrightarrow>
                  cls (heap s light) = LightType_class (ld_type lightData)))
      \<and> (\<forall>k lightData lightData'.
            lc_panel s k = Some lightData \<and> lc_lights s (ld_id lightData) = Some lightData'
            \<longrightarrow> ld_type lightData' = ld_type lightData))"

text \<open>The events of the light panel.\<close>

fun light_event :: "Event \<Rightarrow> bool" where
  "light_event (ClickAddLight ty) = True"
| "light_event (ClickRemoveLight k) = True"
| "light_event (ChangeLightColor k color) = True"
| "light_event (InputLightIntensity k v) = True"
| "light_event (InputLightPosition k index v) = True"
| "light_event (ChangeLightShadow k b) = True"
| "light_event e = False"

text \<open>
  Identifiers of entities end in the decimal digits of a counter; the key of a helper ends
  in \<open>_helper\<close>.
\<close>

definition ends_with_digit :: "string \<Rightarrow> bool" where
  "ends_with_digit k = (k \<noteq> [] \<and> last k \<in> set ''0123456789'')"

text \<open>A step that leaves the objects and the loads alone.\<close>

definition objects_frame :: "App \<Rightarrow> App \<Rightarrow> bool" where
  "objects_frame s s' =
     (sm_objects s' = sm_objects s \<and> oc_objects s' = oc_objects s \<and> loading s' = loading s)"

text \<open>
  What holds of the objects in every state the application reaches: the registry holds
  allocated objects; the key of a record ends in a digit; the record of an imported model
  has its flag set and a non-empty URL, and what the registry holds under its key is a
  group; the record of a primitive has no flag; a load in flight has an identifier that
  ends in a digit and a non-empty URL.
\<close>

definition objects_inv :: "App \<Rightarrow> bool" where
  "objects_inv s =
     ((\<forall>k r. sm_objects s k = Some r \<longrightarrow> r < nextRef s)
      \<and> (\<forall>k objectData. oc_objects s k = Some objectData \<longrightarrow>
            ends_with_digit k
            \<and> (if od_type objectData = ''custom_model''
               then od_isCustomModel objectData = Some True
                    \<and> (\<exists>url. od_modelUrl objectData = Some url \<and> url \<noteq> [])
                    \<and> (\<forall>r. sm_objects s k = Some r \<longrightarrow> cls (heap s r) = Group)
               else od_isCustomModel objectData = None))
      \<and> (\<forall>i url. (i, url) \<in> set (loading s) \<longrightarrow> ends_with_digit i \<and> url \<noteq> []))"

text \<open>The events whose handlers touch neither the objects maps nor the loads.\<close>

fun object_frame_event :: "Event \<Rightarrow> bool" where
  "object_frame_event (ChangeLightColor k color) = True"
| "object_frame_event (InputLightIntensity k v) = True"
| "object_frame_event (InputLightPosition k index v) = True"
| "object_frame_event (ChangeLightShadow k b) = True"
| "object_frame_event (LoaderOnProgress i objectURL) = True"
| "object_frame_event e = False"

section \<open>Generated identifiers\<close>

text \<open>The kind of light an event adds, and the type tag of the object an event adds.\<close>

fun light_kind :: "Event \<Rightarrow> LightType option" where
  "light_kind (ClickAddLight ty) = Some ty"
| "light_kind e = None"

fun object_tag :: "Event \<Rightarrow> string option" where
  "object_tag (ClickAddObject kind random1 random2) = Some (ObjectKind_type kind)"
| "object_tag (UploadModel uuid) = Some ''model''"
| "object_tag e = None"

text \<open>
  Identifiers as the specification words them: the type tag, an underscore and a counter
  that is kept per type and starts at one.
\<close>

fun per_type_ids ::
    "(Event \<Rightarrow> 'k option) \<Rightarrow> ('k \<Rightarrow> string) \<Rightarrow> Event list \<Rightarrow> ('k \<Rightarrow> nat) \<Rightarrow> string list" where
  "per_type_ids kind_of tag [] counter = []"
| "per_type_ids kind_of tag (e # es) counter =
     (case kind_of e of
        Some k \<Rightarrow>
          (tag k @ ''_'' @ number_toString (counter k + 1))
            # per_type_ids kind_of tag es (counter(k := counter k + 1))
      | None \<Rightarrow> per_type_ids kind_of tag es counter)"

text \<open>
  Identifiers made from one counter for all primitives (\<open>n\<close>) and one counter for
  imported models (\<open>m\<close>).
\<close>

fun shared_counter_ids :: "Event list \<Rightarrow> nat \<Rightarrow> nat \<Rightarrow> string list" where
  "shared_counter_ids [] n m = []"
| "shared_counter_ids (ClickAddObject kind random1 random2 # es) n m =
     (ObjectKind_type kind @ ''_'' @ number_toString (n + 1)) # shared_counter_ids es (n + 1) m"
| "shared_counter_ids (UploadModel uuid # es) n m =
     (''model'' @ ''_'' @ number_toString (m + 1)) # shared_counter_ids es n (m + 1)"
| "shared_counter_ids (e # es) n m = shared_counter_ids es n m"

text \<open>The identifier \<open>handleModelUpload\<close> gives the next imported model.\<close>

definition handleModelUpload_newId :: "App \<Rightarrow> string" where
  "handleModelUpload_newId s = ''model_'' @ number_toString (modelCounter s + 1)"

text \<open>
  The identifiers the controllers generate along a run of events, in the order they are
  generated: those of lights, and those of objects.
\<close>

fun new_light_id :: "Event \<Rightarrow> App \<Rightarrow> string list" where
  "new_light_id (ClickAddLight ty) s = [LightController_newId ty s]"
| "new_light_id e s = []"

fun new_object_id :: "Event \<Rightarrow> App \<Rightarrow> string list" where
  "new_object_id (ClickAddObject kind random1 random2) s =
     [ObjectController_newId (ObjectKind_type kind) s]"
| "new_object_id (UploadModel uuid) s = [handleModelUpload_newId s]"
| "new_object_id e s = []"

fun light_ids :: "Event list \<Rightarrow> App \<Rightarrow> string list" where
  "light_ids [] s = []"
| "light_ids (e # es) s = new_light_id e s @ light_ids es (fire e s)"

fun object_ids :: "Event list \<Rightarrow> App \<Rightarrow> string list" where
  "object_ids [] s = []"
| "object_ids (e # es) s = new_object_id e s @ object_ids es (fire e s)"

section \<open>Evaluating the model\<close>

lemmas start_defs = App_start_def App_init_def App_new_def SceneManager_init_def setupGrid_def
  setupDefaultLighting_def setupDefaultObjects_def LightController_init_def
  ObjectController_init_def LightController_renderUI_def ObjectController_renderUI_def
  new_object_def scene_add_def scene_remove_def log_effect_def
  SceneManager_addLight_def SceneManager_addObject_def Light_new_def Mesh_new_def
  Object3D_new_def Helper_new_def

lemmas handler_defs = fire_def LightController_addLight_def LightController_newId_def
  addLight_switch_def LightController_removeLight_def SceneManager_removeLight_def
  SceneManager_removeObject_def SceneManager_getLight_def SceneManager_getObject_def
  ObjectController_addObject_def ObjectController_newId_def addObject_switch_def
  ObjectController_removeObject_def

lemmas upload_defs = handleModelUpload_def handleModelUpload_onLoad_def createObjectURL_def

lemma number_toString_1: "number_toString (Suc 0) = ''1''"
  by (simp add: number_toString.simps digit_char_def)

lemma number_toString_2: "number_toString (Suc (Suc 0)) = ''2''"
  by (simp add: number_toString.simps digit_char_def)

lemma App_start_lights: "sm_lights App_start = [''ambient_default'' \<mapsto> Suc (Suc 0)]"
  by (simp add: start_defs Let_def)

lemma App_start_objects:
  "sm_objects App_start =
     [''box_default'' \<mapsto> Suc (Suc (Suc 0)), ''plane_default'' \<mapsto> Suc (Suc (Suc (Suc 0)))]"
  by (simp add: start_defs Let_def)

section \<open>The registry\<close>

text \<open>
  C8. \<open>removeLight(id)\<close> returns true exactly when the lights map had an entry for
  \<open>id\<close>, and the entry is then gone while every other entry stays; when there was none
  it returns false and leaves the whole state as it was. \<open>removeObject\<close> does the same
  on the objects map, and \<open>getLight\<close> and \<open>getObject\<close> are the lookups of the two maps.
\<close>

theorem SceneManager_remove_get:
  "fst (SceneManager_removeLight i s) = (sm_lights s i \<noteq> None)
   \<and> sm_lights (snd (SceneManager_removeLight i s)) = (sm_lights s)(i := None)
   \<and> (sm_lights s i = None \<longrightarrow> snd (SceneManager_removeLight i s) = s)
   \<and> SceneManager_getLight i s = sm_lights s i
   \<and> fst (SceneManager_removeObject i s) = (sm_objects s i \<noteq> None)
   \<and> sm_objects (snd (SceneManager_removeObject i s)) = (sm_objects s)(i := None)
   \<and> (sm_objects s i = None \<longrightarrow> snd (SceneManager_removeObject i s) = s)
   \<and> SceneManager_getObject i s = sm_objects s i"
  by (auto simp add: SceneManager_removeLight_def SceneManager_removeObject_def
      SceneManager_getLight_def SceneManager_getObject_def scene_remove_def Let_def
      split: option.splits)

theorem SceneManager_remove_get_witness:
  "fst (SceneManager_removeLight ''ambient_default'' App_start)
   \<and> sm_lights (snd (SceneManager_removeLight ''ambient_default'' App_start)) ''ambient_default''
       = None
   \<and> sm_lights App_start ''ambient_1'' = None
   \<and> \<not> fst (SceneManager_removeLight ''ambient_1'' App_start)
   \<and> snd (SceneManager_removeLight ''ambient_1'' App_start) = App_start
   \<and> sm_objects App_start ''box_1'' = None
   \<and> snd (SceneManager_removeObject ''box_1'' App_start) = App_start"
  using SceneManager_remove_get [of "''ambient_default''" App_start]
    SceneManager_remove_get [of "''ambient_1''" App_start]
    SceneManager_remove_get [of "''box_1''" App_start]
  by (simp add: App_start_lights App_start_objects)

text \<open>
  C10, as the claim states it, asks that after \<open>addLight(id, light)\<close> the entity stored
  under \<open>id\<close> before be no longer in the lights map. That fails in two calls the
  registry accepts. On the registry as \<open>init\<close> leaves it, passing the light that
  \<open>ambient_default\<close> already holds leaves that light in the map. And when the same light
  has also been registered under \<open>ambient_2\<close>, adding another light under
  \<open>ambient_default\<close> makes \<open>getLight\<close> return the new one, yet the old one is still in
  the map, under \<open>ambient_2\<close>.
\<close>

theorem SceneManager_addLight_keeps_stored_entity:
  "sm_lights App_start ''ambient_default'' = Some (Suc (Suc 0))
   \<and> Suc (Suc 0) \<in> ran (sm_lights
         (snd (SceneManager_addLight ''ambient_default'' (Suc (Suc 0)) App_start)))
   \<and> sm_lights (snd (SceneManager_addLight ''ambient_2'' (Suc (Suc 0)) App_start))
         ''ambient_default'' = Some (Suc (Suc 0))
   \<and> SceneManager_getLight ''ambient_default''
         (snd (SceneManager_addLight ''ambient_default'' 7
           (snd (SceneManager_addLight ''ambient_2'' (Suc (Suc 0)) App_start)))) = Some 7
   \<and> Suc (Suc 0) \<in> ran (sm_lights
         (snd (SceneManager_addLight ''ambient_default'' 7
           (snd (SceneManager_addLight ''ambient_2'' (Suc (Suc 0)) App_start)))))"
  by (simp add: App_start_lights SceneManager_addLight_def SceneManager_getLight_def
      scene_add_def ran_def)

text \<open>
  C10, amended. \<open>addLight(id, light)\<close> overwrites, whether or not \<open>id\<close> is already a
  key: it returns the light it was given, \<open>getLight(id)\<close> then returns that light, and
  every other key keeps its entry. The light stored under \<open>id\<close> before is no longer in
  the map exactly when it is another object than the one passed and no other key holds
  it.
\<close>

theorem SceneManager_addLight_overwrites:
  "fst (SceneManager_addLight i light s) = light
   \<and> SceneManager_getLight i (snd (SceneManager_addLight i light s)) = Some light
   \<and> sm_lights (snd (SceneManager_addLight i light s)) = (sm_lights s)(i \<mapsto> light)
   \<and> (\<forall>old. sm_lights s i = Some old \<longrightarrow>
          (old \<notin> ran (sm_lights (snd (SceneManager_addLight i light s)))
           \<longleftrightarrow> old \<noteq> light \<and> (\<forall>k. k \<noteq> i \<longrightarrow> sm_lights s k \<noteq> Some old)))"
  by (auto simp add: SceneManager_addLight_def SceneManager_getLight_def scene_add_def ran_def)

theorem SceneManager_addLight_overwrites_witness:
  "sm_lights App_start ''ambient_default'' = Some (Suc (Suc 0))
   \<and> SceneManager_getLight ''ambient_default''
        (snd (SceneManager_addLight ''ambient_default'' 7 App_start)) = Some 7
   \<and> Suc (Suc 0) \<notin> ran (sm_lights (snd (SceneManager_addLight ''ambient_default'' 7 App_start)))"
  using SceneManager_addLight_overwrites [of "''ambient_default''" 7 App_start]
  by (simp add: App_start_lights)

text \<open>
  C3, as the claim states it, asks that \<open>addLight(id, light)\<close> fail for an \<open>id\<close> that
  is already a key and leave the entry alone. It does not: on the registry as \<open>init\<close>
  leaves it, adding another light under \<open>ambient_default\<close> returns that light and
  replaces the entry.
\<close>

theorem SceneManager_addLight_replaces_existing:
  "sm_lights App_start ''ambient_default'' = Some (Suc (Suc 0))
   \<and> fst (SceneManager_addLight ''ambient_default'' 7 App_start) = 7
   \<and> sm_lights (snd (SceneManager_addLight ''ambient_default'' 7 App_start)) ''ambient_default''
       = Some 7"
  by (simp add: App_start_lights SceneManager_addLight_def scene_add_def)

text \<open>
  C3, amended. For an \<open>id\<close> that is already a key, \<open>addLight(id, light)\<close> does not
  fail: it returns the light, stores it under \<open>id\<close> in place of the old entry, and the
  map keeps the keys it had.
\<close>

theorem SceneManager_addLight_never_rejects:
  "sm_lights s i = Some old \<Longrightarrow>
     fst (SceneManager_addLight i light s) = light
     \<and> sm_lights (snd (SceneManager_addLight i light s)) i = Some light
     \<and> dom (sm_lights (snd (SceneManager_addLight i light s))) = dom (sm_lights s)"
  by (auto simp add: SceneManager_addLight_def scene_add_def)

theorem SceneManager_addLight_never_rejects_witness:
  "sm_lights App_start ''ambient_default'' = Some (Suc (Suc 0))
   \<and> fst (SceneManager_addLight ''ambient_default'' 7 App_start) = 7
   \<and> dom (sm_lights (snd (SceneManager_addLight ''ambient_default'' 7 App_start)))
       = dom (sm_lights App_start)"
  using SceneManager_addLight_never_rejects [of App_start "''ambient_default''" "Suc (Suc 0)" 7]
  by (simp add: App_start_lights)

section \<open>Edits\<close>

text \<open>
  C2. For an identifier that has a metadata record and a registry entry, and an intensity
  \<open>v\<close> between 0 and 5, \<open>updateLightIntensity\<close> leaves \<open>v\<close> as the intensity of the
  record and as the intensity of the light the registry holds under the identifier.
\<close>

theorem updateLightIntensity_synchronized:
  assumes "lc_lights s i = Some lightData" and "sm_lights s i = Some light"
    and "0 \<le> v" and "v \<le> 5"
  shows "map_option ld_intensity (lc_lights (updateLightIntensity i v s) i) = Some v
     \<and> sm_lights (updateLightIntensity i v s) i = Some light
     \<and> o_intensity (heap (updateLightIntensity i v s) light) = v"
  using assms by (simp add: updateLightIntensity_def SceneManager_getLight_def)

theorem updateLightIntensity_synchronized_witness:
  "lc_lights (run [ClickAddLight point] App_start) ''point_1'' \<noteq> None
   \<and> sm_lights (run [ClickAddLight point] App_start) ''point_1'' = Some 5
   \<and> map_option ld_intensity
        (lc_lights (updateLightIntensity ''point_1'' (5 / 2) (run [ClickAddLight point] App_start))
           ''point_1'') = Some (5 / 2)
   \<and> o_intensity (heap (updateLightIntensity ''point_1'' (5 / 2)
        (run [ClickAddLight point] App_start)) 5) = 5 / 2"
proof -
  let ?s = "run [ClickAddLight point] App_start"
  have a: "lc_lights ?s ''point_1'' \<noteq> None"
    by (simp add: start_defs handler_defs number_toString_1 Let_def)
  then obtain lightData where b: "lc_lights ?s ''point_1'' = Some lightData" by blast
  have c: "sm_lights ?s ''point_1'' = Some 5"
    by (simp add: start_defs handler_defs number_toString_1 Let_def)
  show ?thesis
    using a c updateLightIntensity_synchronized [OF b c, of "5 / 2"] by simp
qed

text \<open>
  C4. An edit of a light (colour, intensity, position, shadow flag) for an identifier
  that has no metadata record or no registry entry returns the state it was given; so
  does an edit of an object (position, rotation, scale, colour, roughness, metalness).
  The edits have no error result: none of them throws.
\<close>

theorem stale_identifier_edits_are_noops:
  "(lc_lights s i = None \<or> sm_lights s i = None \<longrightarrow>
      updateLightColor i color s = s \<and> updateLightIntensity i v s = s
      \<and> updateLightPosition i p s = s \<and> updateShadowCasting i b s = s)
   \<and> (oc_objects s i = None \<or> sm_objects s i = None \<longrightarrow>
      updateObjectPosition i p s = s \<and> updateObjectRotation i r s = s
      \<and> updateObjectScale i p s = s \<and> updateObjectColor i color s = s
      \<and> updateObjectRoughness i v s = s \<and> updateObjectMetalness i v s = s)"
  by (auto simp add: updateLightColor_def updateLightIntensity_def updateLightPosition_def
      updateShadowCasting_def updateObjectPosition_def updateObjectRotation_def
      updateObjectScale_def updateObjectColor_def updateObjectRoughness_def
      updateObjectMetalness_def SceneManager_getLight_def SceneManager_getObject_def
      split: option.splits)

theorem stale_identifier_edits_are_noops_witness:
  "lc_lights (run [ClickAddLight point, ClickRemoveLight ''point_1''] App_start) ''point_1'' = None
   \<and> updateLightColor ''point_1'' ''#ff0000''
        (run [ClickAddLight point, ClickRemoveLight ''point_1''] App_start)
       = run [ClickAddLight point, ClickRemoveLight ''point_1''] App_start
   \<and> oc_objects (run [ClickAddObject Box 0 0, ClickRemoveObject ''box_1''] App_start) ''box_1''
       = None
   \<and> updateObjectScale ''box_1'' (Vector3 3 1 1)
        (run [ClickAddObject Box 0 0, ClickRemoveObject ''box_1''] App_start)
       = run [ClickAddObject Box 0 0, ClickRemoveObject ''box_1''] App_start"
proof -
  let ?s = "run [ClickAddLight point, ClickRemoveLight ''point_1''] App_start"
  let ?t = "run [ClickAddObject Box 0 0, ClickRemoveObject ''box_1''] App_start"
  have a: "lc_lights ?s ''point_1'' = None"
    by (simp add: start_defs handler_defs number_toString_1 Let_def)
  have b: "oc_objects ?t ''box_1'' = None"
    by (simp add: start_defs handler_defs number_toString_1 Let_def)
  show ?thesis
    using a b
      stale_identifier_edits_are_noops
        [of ?s "''point_1''" "''#ff0000''" 0 "Vector3 0 0 0" False "Euler 0 0 0"]
      stale_identifier_edits_are_noops
        [of ?t "''box_1''" "''#ff0000''" 0 "Vector3 3 1 1" False "Euler 0 0 0"]
    by simp
qed

section \<open>The invariant of the lights\<close>

lemmas op_defs = LightController_addLight_def addLight_switch_def
  LightController_removeLight_def updateLightColor_def updateLightIntensity_def
  updateLightPosition_def updateShadowCasting_def lightPosition_oninput_def refresh_helper_def
  ObjectController_addObject_def ObjectController_removeObject_def
  updateObjectColor_def updateObjectRoughness_def updateObjectMetalness_def
  updateObjectPosition_def updateObjectRotation_def updateObjectScale_def
  objectPosition_oninput_def objectRotation_oninput_def objectScale_oninput_def
  handleModelUpload_def handleModelUpload_onLoad_def handleModelUpload_onError_def
  SceneManager_addLight_def SceneManager_addObject_def
  SceneManager_removeLight_def SceneManager_removeObject_def
  SceneManager_getLight_def SceneManager_getObject_def
  new_object_def scene_add_def scene_remove_def log_effect_def
  LightController_renderUI_def ObjectController_renderUI_def
  Light_new_def Mesh_new_def Object3D_new_def Helper_new_def

lemmas op_splits = option.splits sum.splits LightType.splits prod.splits if_splits

lemma handle_heap_extends: "heap_extends s (handle e s)"
  unfolding heap_extends_def
  by (cases e) (auto simp add: op_defs Let_def split: op_splits)

lemma handle_lights_frame: "\<not> light_event e \<Longrightarrow> lights_frame s (handle e s)"
  unfolding lights_frame_def
  by (cases e) (simp_all add: op_defs Let_def split: op_splits)


lemma addLight_effect:
  "sm_lights (LightController_addLight ty s)
     = (sm_lights s)(LightController_newId ty s \<mapsto> nextRef s)"
  "cls (heap (LightController_addLight ty s) (nextRef s)) = LightType_class ty"
  "nextRef s < nextRef (LightController_addLight ty s)"
  "lc_panel (LightController_addLight ty s) = lc_lights (LightController_addLight ty s)"
  by (cases ty; simp add: op_defs Let_def)+

lemma addLight_record:
  "k \<noteq> LightController_newId ty s
     \<Longrightarrow> lc_lights (LightController_addLight ty s) k = lc_lights s k"
  "map_option ld_id (lc_lights (LightController_addLight ty s) (LightController_newId ty s))
     = Some (LightController_newId ty s)"
  "map_option ld_type (lc_lights (LightController_addLight ty s) (LightController_newId ty s))
     = Some ty"
  "map_option kind_invariant
     (lc_lights (LightController_addLight ty s) (LightController_newId ty s)) = Some True"
  by (cases ty; simp add: op_defs Let_def kind_invariant_def)+

lemma removeLight_effect:
  "sm_lights (LightController_removeLight i s)
     = (if lc_lights s i = None then sm_lights s else (sm_lights s)(i := None))"
  "lc_lights (LightController_removeLight i s) = (lc_lights s)(i := None)"
  "lc_panel (LightController_removeLight i s)
     = (if lc_lights s i = None then lc_panel s else (lc_lights s)(i := None))"
  "nextRef (LightController_removeLight i s) = nextRef s"
  "heap (LightController_removeLight i s) = heap s"
  by (auto simp add: op_defs Let_def split: option.splits)

lemma lights_invD:
  assumes "lights_inv s"
  shows "\<And>k r. sm_lights s k = Some r \<Longrightarrow> r < nextRef s"
    and "\<And>k lightData. lc_lights s k = Some lightData \<Longrightarrow> ld_id lightData = k"
    and "\<And>k lightData. lc_lights s k = Some lightData \<Longrightarrow> kind_invariant lightData"
    and "\<And>k lightData light. lc_lights s k = Some lightData \<Longrightarrow> sm_lights s k = Some light
           \<Longrightarrow> cls (heap s light) = LightType_class (ld_type lightData)"
    and "\<And>k lightData lightData'. lc_panel s k = Some lightData
           \<Longrightarrow> lc_lights s (ld_id lightData) = Some lightData'
           \<Longrightarrow> ld_type lightData' = ld_type lightData"
  using assms unfolding lights_inv_def by blast+

lemma lights_invI:
  assumes "\<And>k r. sm_lights s k = Some r \<Longrightarrow> r < nextRef s"
    and "\<And>k lightData. lc_lights s k = Some lightData \<Longrightarrow> ld_id lightData = k"
    and "\<And>k lightData. lc_lights s k = Some lightData \<Longrightarrow> kind_invariant lightData"
    and "\<And>k lightData light. lc_lights s k = Some lightData \<Longrightarrow> sm_lights s k = Some light
           \<Longrightarrow> cls (heap s light) = LightType_class (ld_type lightData)"
    and "\<And>k lightData lightData'. lc_panel s k = Some lightData
           \<Longrightarrow> lc_lights s (ld_id lightData) = Some lightData'
           \<Longrightarrow> ld_type lightData' = ld_type lightData"
  shows "lights_inv s"
  unfolding lights_inv_def using assms by blast

text \<open>A panel that was just rebuilt from well-formed records agrees with them.\<close>

lemma panel_fresh:
  assumes "lc_panel s = lc_lights s"
    and "\<And>k lightData. lc_lights s k = Some lightData \<Longrightarrow> ld_id lightData = k"
    and "lc_panel s k = Some lightData" and "lc_lights s (ld_id lightData) = Some lightData'"
  shows "ld_type lightData' = ld_type lightData"
proof -
  have a: "lc_lights s k = Some lightData" using assms(1,3) by simp
  then have "ld_id lightData = k" by (rule assms(2))
  then show ?thesis using a assms(4) by simp
qed

lemma lights_inv_addLight:
  assumes inv: "lights_inv s" shows "lights_inv (LightController_addLight ty s)"
proof (rule lights_invI)
  let ?s' = "LightController_addLight ty s"
  let ?i = "LightController_newId ty s"
  note e = addLight_effect and r = addLight_record and d = lights_invD [OF inv]
  have ext: "heap_extends s ?s'"
    using handle_heap_extends [of s "ClickAddLight ty"] by simp
  show "r < nextRef ?s'" if a: "sm_lights ?s' k = Some r" for k r
  proof (cases "k = ?i")
    case True
    then have "r = nextRef s" using a by (simp add: e(1))
    then show ?thesis using e(3) by simp
  next
    case False
    then have "sm_lights s k = Some r" using a by (simp add: e(1))
    then have "r < nextRef s" by (rule d(1))
    then show ?thesis using e(3) [of s ty] by (rule less_trans)
  qed
  show id: "ld_id lightData = k" if a: "lc_lights ?s' k = Some lightData" for k lightData
  proof (cases "k = ?i")
    case True
    then show ?thesis using a r(2) [of ty s] by simp
  next
    case False
    then show ?thesis using a d(2) by (simp add: r(1))
  qed
  show "kind_invariant lightData" if a: "lc_lights ?s' k = Some lightData" for k lightData
  proof (cases "k = ?i")
    case True
    then show ?thesis using a r(4) [of ty s] by simp
  next
    case False
    then show ?thesis using a d(3) by (simp add: r(1))
  qed
  show "cls (heap ?s' light) = LightType_class (ld_type lightData)"
    if a: "lc_lights ?s' k = Some lightData" and b: "sm_lights ?s' k = Some light"
    for k lightData light
  proof (cases "k = ?i")
    case True
    then have "light = nextRef s" using b by (simp add: e(1))
    moreover have "ld_type lightData = ty" using True a r(3) [of ty s] by simp
    ultimately show ?thesis by (simp add: e(2))
  next
    case False
    then have a': "lc_lights s k = Some lightData" and b': "sm_lights s k = Some light"
      using a b by (simp_all add: r(1) e(1))
    have "light < nextRef s" using b' by (rule d(1))
    then have "cls (heap ?s' light) = cls (heap s light)"
      using ext unfolding heap_extends_def by blast
    then show ?thesis using d(4) [OF a' b'] by simp
  qed
  show "ld_type lightData' = ld_type lightData"
    if "lc_panel ?s' k = Some lightData" and "lc_lights ?s' (ld_id lightData) = Some lightData'"
    for k lightData lightData'
    using e(4) id that by (rule panel_fresh)
qed

lemma lights_inv_removeLight:
  assumes inv: "lights_inv s" shows "lights_inv (LightController_removeLight i s)"
proof (cases "lc_lights s i")
  case None
  then have "LightController_removeLight i s = s" by (simp add: LightController_removeLight_def)
  then show ?thesis using inv by simp
next
  case (Some ld0)
  let ?s' = "LightController_removeLight i s"
  note e = removeLight_effect and d = lights_invD [OF inv]
  have sm: "sm_lights ?s' = (sm_lights s)(i := None)" using Some by (simp add: e(1))
  have lc: "lc_lights ?s' = (lc_lights s)(i := None)" by (simp add: e(2))
  have pn: "lc_panel ?s' = lc_lights ?s'" using Some by (simp add: e(2) e(3))
  show ?thesis
  proof (rule lights_invI)
    show "r < nextRef ?s'" if "sm_lights ?s' k = Some r" for k r
      using that d(1) [of k r] by (simp add: sm e(4) split: if_splits)
    show id: "ld_id lightData = k" if "lc_lights ?s' k = Some lightData" for k lightData
      using that d(2) [of k lightData] by (simp add: lc split: if_splits)
    show "kind_invariant lightData" if "lc_lights ?s' k = Some lightData" for k lightData
      using that d(3) [of k lightData] by (simp add: lc split: if_splits)
    show "cls (heap ?s' light) = LightType_class (ld_type lightData)"
      if "lc_lights ?s' k = Some lightData" and "sm_lights ?s' k = Some light"
      for k lightData light
      using that d(4) [of k lightData light] by (simp add: lc sm e(5) split: if_splits)
    show "ld_type lightData' = ld_type lightData"
      if "lc_panel ?s' k = Some lightData" and "lc_lights ?s' (ld_id lightData) = Some lightData'"
      for k lightData lightData'
      using pn id that by (rule panel_fresh)
  qed
qed

text \<open>An edit of one record that keeps its identifier and its kind.\<close>

lemma lights_inv_edit:
  assumes inv: "lights_inv s"
    and old: "lc_lights s i = Some ld"
    and lc: "lc_lights s' = (lc_lights s)(i \<mapsto> ld')"
    and same: "ld_id ld' = ld_id ld" "ld_type ld' = ld_type ld"
    and kind: "kind_invariant ld'"
    and sm: "sm_lights s' = sm_lights s" and pn: "lc_panel s' = lc_panel s"
    and nr: "nextRef s' = nextRef s" and hp: "\<And>r. cls (heap s' r) = cls (heap s r)"
  shows "lights_inv s'"
proof (rule lights_invI)
  note d = lights_invD [OF inv]
  show "r < nextRef s'" if "sm_lights s' k = Some r" for k r
    using that d(1) [of k r] by (simp add: sm nr)
  show "ld_id lightData = k" if "lc_lights s' k = Some lightData" for k lightData
    using that d(2) [of k lightData] d(2) [OF old] same
    by (simp add: lc split: if_splits)
  show "kind_invariant lightData" if "lc_lights s' k = Some lightData" for k lightData
    using that d(3) [of k lightData] kind by (auto simp add: lc split: if_splits)
  show "cls (heap s' light) = LightType_class (ld_type lightData)"
    if "lc_lights s' k = Some lightData" and "sm_lights s' k = Some light"
    for k lightData light
    using that d(4) [of k lightData light] d(4) [OF old, of light] same
    by (auto simp add: lc sm hp split: if_splits)
  show "ld_type lightData' = ld_type lightData"
    if a: "lc_panel s' k = Some lightData" and b: "lc_lights s' (ld_id lightData) = Some lightData'"
    for k lightData lightData'
  proof (cases "ld_id lightData = i")
    case True
    then have "lightData' = ld'" using b by (simp add: lc)
    moreover have "ld_type ld = ld_type lightData"
      using d(5) [of k lightData ld] a True old by (simp add: pn)
    ultimately show ?thesis using same by simp
  next
    case False
    then show ?thesis using d(5) [of k lightData lightData'] a b by (simp add: pn lc)
  qed
qed

lemma lights_inv_updateLightColor:
  assumes inv: "lights_inv s" shows "lights_inv (updateLightColor i color s)"
proof (cases "sm_lights s i = None \<or> lc_lights s i = None")
  case True
  then have "updateLightColor i color s = s"
    by (auto simp add: updateLightColor_def SceneManager_getLight_def split: option.splits)
  then show ?thesis using inv by simp
next
  case False
  then obtain light ld where l: "sm_lights s i = Some light" and m: "lc_lights s i = Some ld"
    by auto
  show ?thesis
  proof (rule lights_inv_edit [OF inv m, where ld' = "ld\<lparr>ld_color := color\<rparr>"])
    show "kind_invariant (ld\<lparr>ld_color := color\<rparr>)"
      using lights_invD(3) [OF inv m]
      by (cases "ld_type ld") (simp_all add: kind_invariant_def)
  qed (simp_all add: l m op_defs Let_def split: option.splits)
qed

lemma lights_inv_updateLightIntensity:
  assumes inv: "lights_inv s" shows "lights_inv (updateLightIntensity i v s)"
proof (cases "sm_lights s i = None \<or> lc_lights s i = None")
  case True
  then have "updateLightIntensity i v s = s"
    by (auto simp add: updateLightIntensity_def SceneManager_getLight_def split: option.splits)
  then show ?thesis using inv by simp
next
  case False
  then obtain light ld where l: "sm_lights s i = Some light" and m: "lc_lights s i = Some ld"
    by auto
  show ?thesis
  proof (rule lights_inv_edit [OF inv m, where ld' = "ld\<lparr>ld_intensity := v\<rparr>"])
    show "kind_invariant (ld\<lparr>ld_intensity := v\<rparr>)"
      using lights_invD(3) [OF inv m]
      by (cases "ld_type ld") (simp_all add: kind_invariant_def)
  qed (simp_all add: l m op_defs Let_def split: option.splits)
qed

text \<open>The position of a light that is not ambient may be edited.\<close>

lemma lights_inv_updateLightPosition:
  assumes inv: "lights_inv s"
    and na: "\<And>ld. lc_lights s i = Some ld \<Longrightarrow> ld_type ld \<noteq> ambient"
  shows "lights_inv (updateLightPosition i p s)"
proof (cases "sm_lights s i = None \<or> lc_lights s i = None")
  case True
  then have "updateLightPosition i p s = s"
    by (auto simp add: updateLightPosition_def SceneManager_getLight_def split: option.splits)
  then show ?thesis using inv by simp
next
  case False
  then obtain light ld where l: "sm_lights s i = Some light" and m: "lc_lights s i = Some ld"
    by auto
  show ?thesis
  proof (rule lights_inv_edit [OF inv m, where ld' = "ld\<lparr>ld_position := Some p\<rparr>"])
    show "kind_invariant (ld\<lparr>ld_position := Some p\<rparr>)"
      using lights_invD(3) [OF inv m] na [OF m]
      by (cases "ld_type ld") (simp_all add: kind_invariant_def)
  qed (simp_all add: l m op_defs Let_def split: option.splits)
qed

text \<open>The shadow flag is written only when the light is a directional or a spot light.\<close>

lemma lights_inv_updateShadowCasting:
  assumes inv: "lights_inv s" shows "lights_inv (updateShadowCasting i b s)"
proof (cases "sm_lights s i = None \<or> lc_lights s i = None")
  case True
  then have "updateShadowCasting i b s = s"
    by (auto simp add: updateShadowCasting_def SceneManager_getLight_def split: option.splits)
  then show ?thesis using inv by simp
next
  case False
  then obtain light ld where l: "sm_lights s i = Some light" and m: "lc_lights s i = Some ld"
    by auto
  have c: "cls (heap s light) = LightType_class (ld_type ld)"
    using lights_invD(4) [OF inv m l] .
  show ?thesis
  proof (cases "cls (heap s light) = DirectionalLight \<or> cls (heap s light) = SpotLight")
    case False
    then have "updateShadowCasting i b s = s"
      by (simp add: updateShadowCasting_def SceneManager_getLight_def l m)
    then show ?thesis using inv by simp
  next
    case True
    then have ty: "ld_type ld = directional \<or> ld_type ld = spot"
      using c by (cases "ld_type ld") simp_all
    show ?thesis
    proof (rule lights_inv_edit [OF inv m, where ld' = "ld\<lparr>ld_castShadow := Some b\<rparr>"])
      show "kind_invariant (ld\<lparr>ld_castShadow := Some b\<rparr>)"
        using ty by (auto simp add: kind_invariant_def)
    qed (use True in \<open>simp_all add: l m op_defs Let_def split: option.splits\<close>)
  qed
qed

lemma lights_inv_frame:
  assumes inv: "lights_inv s" and fr: "lights_frame s s'" and ext: "heap_extends s s'"
  shows "lights_inv s'"
proof (rule lights_invI)
  note d = lights_invD [OF inv]
  have sm: "sm_lights s' = sm_lights s" and lc: "lc_lights s' = lc_lights s"
    and pn: "lc_panel s' = lc_panel s"
    using fr unfolding lights_frame_def by simp_all
  have le: "nextRef s \<le> nextRef s'"
    and hp: "\<And>r. r < nextRef s \<Longrightarrow> cls (heap s' r) = cls (heap s r)"
    using ext unfolding heap_extends_def by simp_all
  show "r < nextRef s'" if "sm_lights s' k = Some r" for k r
    using that d(1) [of k r] le by (simp add: sm)
  show "ld_id lightData = k" if "lc_lights s' k = Some lightData" for k lightData
    using that d(2) [of k lightData] by (simp add: lc)
  show "kind_invariant lightData" if "lc_lights s' k = Some lightData" for k lightData
    using that d(3) [of k lightData] by (simp add: lc)
  show "cls (heap s' light) = LightType_class (ld_type lightData)"
    if "lc_lights s' k = Some lightData" and "sm_lights s' k = Some light"
    for k lightData light
    using that d(4) [of k lightData light] d(1) [of k light] hp [of light] by (simp add: lc sm)
  show "ld_type lightData' = ld_type lightData"
    if "lc_panel s' k = Some lightData" and "lc_lights s' (ld_id lightData) = Some lightData'"
    for k lightData lightData'
    using that d(5) [of k lightData lightData'] by (simp add: pn lc)
qed

lemma lights_inv_fire:
  assumes inv: "lights_inv s" shows "lights_inv (fire e s)"
proof (cases "wired s e")
  case False
  then show ?thesis using inv by (simp add: fire_def)
next
  case True
  then have f: "fire e s = handle e s" by (simp add: fire_def)
  show ?thesis
  proof (cases "light_event e")
    case False
    then show ?thesis
      using lights_inv_frame [OF inv handle_lights_frame handle_heap_extends] f by simp
  next
    case le: True
    show ?thesis
    proof (cases e)
      case (ClickAddLight ty)
      then show ?thesis using f lights_inv_addLight [OF inv] by simp
    next
      case (ClickRemoveLight k)
      then show ?thesis using f inv lights_inv_removeLight [OF inv]
        by (simp split: option.splits)
    next
      case (ChangeLightColor k color)
      then show ?thesis using f inv lights_inv_updateLightColor [OF inv]
        by (simp split: option.splits)
    next
      case (InputLightIntensity k v)
      then show ?thesis using f inv lights_inv_updateLightIntensity [OF inv]
        by (simp split: option.splits)
    next
      case (InputLightPosition k index v)
      from True InputLightPosition obtain ld where
        p: "lc_panel s k = Some ld" and na: "ld_type ld \<noteq> ambient"
        by (auto split: option.splits)
      have "\<And>ld'. lc_lights s (ld_id ld) = Some ld' \<Longrightarrow> ld_type ld' \<noteq> ambient"
        using lights_invD(5) [OF inv p] na by simp
      then have "lights_inv (updateLightPosition (ld_id ld) p' s)" for p'
        by (rule lights_inv_updateLightPosition [OF inv])
      then show ?thesis using f p InputLightPosition
        by (simp add: lightPosition_oninput_def Let_def)
    next
      case (ChangeLightShadow k b)
      then show ?thesis using f inv lights_inv_updateShadowCasting [OF inv]
        by (simp split: option.splits)
    qed (use le in simp_all)
  qed
qed

lemma lights_inv_run: "lights_inv s \<Longrightarrow> lights_inv (run evs s)"
  by (induction evs arbitrary: s) (simp_all add: lights_inv_fire)

lemma lights_inv_start: "lights_inv App_start"
  unfolding lights_inv_def by (simp add: start_defs Let_def)

text \<open>
  C7. In every state the application reaches from its start by events of the controls
  that exist and callbacks of the loader, every metadata record of a light satisfies the
  invariant of its kind: an ambient light has no position and no shadow flag, a
  directional or a spot light has a shadow flag, a point light has none.
\<close>

theorem light_kind_invariant:
  "lc_lights (run evs App_start) i = Some lightData \<Longrightarrow> kind_invariant lightData"
  using lights_invD(3) [OF lights_inv_run [OF lights_inv_start]] .

theorem light_kind_invariant_witness:
  "lc_lights (run [ClickAddLight spot, ChangeLightShadow ''spot_1'' False,
                   ClickAddLight ambient] App_start) ''spot_1'' \<noteq> None
   \<and> kind_invariant (the (lc_lights
        (run [ClickAddLight spot, ChangeLightShadow ''spot_1'' False,
              ClickAddLight ambient] App_start) ''spot_1''))
   \<and> kind_invariant (the (lc_lights
        (run [ClickAddLight spot, ChangeLightShadow ''spot_1'' False,
              ClickAddLight ambient] App_start) ''ambient_1''))"
proof -
  let ?s = "run [ClickAddLight spot, ChangeLightShadow ''spot_1'' False,
                 ClickAddLight ambient] App_start"
  have a: "lc_lights ?s ''spot_1'' \<noteq> None" and b: "lc_lights ?s ''ambient_1'' \<noteq> None"
    by (simp_all add: start_defs handler_defs updateShadowCasting_def number_toString_1 Let_def)
  then obtain x y where x: "lc_lights ?s ''spot_1'' = Some x"
    and y: "lc_lights ?s ''ambient_1'' = Some y" by blast
  show ?thesis
    using a x y light_kind_invariant [OF x] light_kind_invariant [OF y] by simp
qed

text \<open>
  The invariant rests on the panel: \<open>createLightElement\<close> builds no position sliders
  for an ambient light, so \<open>updateLightPosition\<close> is never called with the identifier
  of one. Called directly with such an identifier it would give the record a position;
  the event of a position slider for that light is not wired and changes nothing.
\<close>

lemma updateLightPosition_of_ambient:
  "map_option ld_position
     (lc_lights (updateLightPosition ''ambient_1'' (Vector3 1 2 3)
        (run [ClickAddLight ambient] App_start)) ''ambient_1'') = Some (Some (Vector3 1 2 3))
   \<and> \<not> wired (run [ClickAddLight ambient] App_start) (InputLightPosition ''ambient_1'' 0 1)
   \<and> fire (InputLightPosition ''ambient_1'' 0 1) (run [ClickAddLight ambient] App_start)
       = run [ClickAddLight ambient] App_start"
proof -
  let ?s = "run [ClickAddLight ambient] App_start"
  have a: "map_option ld_position
     (lc_lights (updateLightPosition ''ambient_1'' (Vector3 1 2 3) ?s) ''ambient_1'')
       = Some (Some (Vector3 1 2 3))"
    by (simp add: start_defs handler_defs updateLightPosition_def refresh_helper_def
        number_toString_1 Let_def)
  have b: "\<not> wired ?s (InputLightPosition ''ambient_1'' 0 1)"
    by (simp add: start_defs handler_defs number_toString_1 Let_def)
  then have "fire (InputLightPosition ''ambient_1'' 0 1) ?s = ?s"
    by (simp only: fire_def if_False)
  then show ?thesis using a b by simp
qed

section \<open>The invariant of the objects\<close>

lemma digit_char_in: "d < 10 \<Longrightarrow> digit_char d \<in> set ''0123456789''"
  unfolding digit_char_def by (rule nth_mem) simp

lemma number_toString_last: "ends_with_digit (number_toString n)"
proof (cases "n < 10")
  case True
  then show ?thesis
    using digit_char_in [of n] by (subst number_toString.simps) (simp add: ends_with_digit_def)
next
  case False
  have "n mod 10 < 10" by simp
  then show ?thesis
    using False digit_char_in [of "n mod 10"]
    by (subst number_toString.simps) (simp add: ends_with_digit_def)
qed

lemma ends_with_digit_append: "ends_with_digit b \<Longrightarrow> ends_with_digit (a @ b)"
  by (simp add: ends_with_digit_def)

lemma ends_with_digit_id: "ends_with_digit (ty @ ''_'' @ number_toString n)"
  by (intro ends_with_digit_append number_toString_last)

lemma helper_not_digit: "\<not> ends_with_digit (i @ ''_helper'')"
  by (simp add: ends_with_digit_def)

lemma handle_objects_frame: "object_frame_event e \<Longrightarrow> objects_frame s (handle e s)"
  unfolding objects_frame_def
  by (cases e) (simp_all add: op_defs Let_def split: op_splits)

lemma addLight_objects:
  "oc_objects (LightController_addLight ty s) = oc_objects s"
  "loading (LightController_addLight ty s) = loading s"
  "ends_with_digit k \<Longrightarrow> sm_objects (LightController_addLight ty s) k = sm_objects s k"
  "sm_objects (LightController_addLight ty s) k = Some r
     \<Longrightarrow> sm_objects s k = Some r \<or> r < nextRef (LightController_addLight ty s)"
proof -
  show "oc_objects (LightController_addLight ty s) = oc_objects s"
    by (cases ty) (simp_all add: op_defs Let_def)
  show "loading (LightController_addLight ty s) = loading s"
    by (cases ty) (simp_all add: op_defs Let_def)
  show "sm_objects (LightController_addLight ty s) k = sm_objects s k" if "ends_with_digit k"
    using that helper_not_digit [of "LightController_newId ty s"]
    by (cases ty) (auto simp add: op_defs Let_def)
  show "sm_objects s k = Some r \<or> r < nextRef (LightController_addLight ty s)"
    if "sm_objects (LightController_addLight ty s) k = Some r"
    using that by (cases ty) (auto simp add: op_defs Let_def split: if_splits)
qed

lemma removeLight_objects:
  "oc_objects (LightController_removeLight i s) = oc_objects s"
  "loading (LightController_removeLight i s) = loading s"
  "nextRef (LightController_removeLight i s) = nextRef s"
  "ends_with_digit k \<Longrightarrow> sm_objects (LightController_removeLight i s) k = sm_objects s k"
  "sm_objects (LightController_removeLight i s) k = Some r \<Longrightarrow> sm_objects s k = Some r"
proof -
  show "oc_objects (LightController_removeLight i s) = oc_objects s"
    by (simp add: op_defs Let_def split: option.splits)
  show "loading (LightController_removeLight i s) = loading s"
    by (simp add: op_defs Let_def split: option.splits)
  show "nextRef (LightController_removeLight i s) = nextRef s"
    by (simp add: op_defs Let_def split: option.splits)
  show "sm_objects (LightController_removeLight i s) k = sm_objects s k" if "ends_with_digit k"
    using that helper_not_digit [of i]
    by (auto simp add: op_defs Let_def split: option.splits)
  show "sm_objects s k = Some r" if "sm_objects (LightController_removeLight i s) k = Some r"
    using that by (auto simp add: op_defs Let_def split: option.splits if_splits)
qed

lemma objects_invD:
  assumes "objects_inv s"
  shows "\<And>k r. sm_objects s k = Some r \<Longrightarrow> r < nextRef s"
    and "\<And>k objectData. oc_objects s k = Some objectData \<Longrightarrow> ends_with_digit k"
    and "\<And>k objectData. oc_objects s k = Some objectData
           \<Longrightarrow> od_type objectData = ''custom_model''
           \<Longrightarrow> od_isCustomModel objectData = Some True
               \<and> (\<exists>url. od_modelUrl objectData = Some url \<and> url \<noteq> [])"
    and "\<And>k objectData r. oc_objects s k = Some objectData
           \<Longrightarrow> od_type objectData = ''custom_model'' \<Longrightarrow> sm_objects s k = Some r
           \<Longrightarrow> cls (heap s r) = Group"
    and "\<And>k objectData. oc_objects s k = Some objectData
           \<Longrightarrow> od_type objectData \<noteq> ''custom_model''
           \<Longrightarrow> od_isCustomModel objectData = None"
    and "\<And>i url. (i, url) \<in> set (loading s) \<Longrightarrow> ends_with_digit i \<and> url \<noteq> []"
proof -
  note a = assms [unfolded objects_inv_def]
  show "\<And>k r. sm_objects s k = Some r \<Longrightarrow> r < nextRef s" using a by blast
  show "\<And>k objectData. oc_objects s k = Some objectData \<Longrightarrow> ends_with_digit k"
    using a by blast
  show "\<And>i url. (i, url) \<in> set (loading s) \<Longrightarrow> ends_with_digit i \<and> url \<noteq> []"
    using a by blast
  show "od_isCustomModel objectData = Some True
          \<and> (\<exists>url. od_modelUrl objectData = Some url \<and> url \<noteq> [])"
    if "oc_objects s k = Some objectData" "od_type objectData = ''custom_model''"
    for k objectData
    using a that by (metis (full_types))
  show "cls (heap s r) = Group"
    if "oc_objects s k = Some objectData" "od_type objectData = ''custom_model''"
      "sm_objects s k = Some r"
    for k objectData r
    using a that by (metis (full_types))
  show "od_isCustomModel objectData = None"
    if "oc_objects s k = Some objectData" "od_type objectData \<noteq> ''custom_model''"
    for k objectData
    using a that by (metis (full_types))
qed

lemma objects_invI:
  assumes "\<And>k r. sm_objects s k = Some r \<Longrightarrow> r < nextRef s"
    and "\<And>k objectData. oc_objects s k = Some objectData \<Longrightarrow> ends_with_digit k"
    and "\<And>k objectData. oc_objects s k = Some objectData
           \<Longrightarrow> od_type objectData = ''custom_model''
           \<Longrightarrow> od_isCustomModel objectData = Some True
               \<and> (\<exists>url. od_modelUrl objectData = Some url \<and> url \<noteq> [])"
    and "\<And>k objectData r. oc_objects s k = Some objectData
           \<Longrightarrow> od_type objectData = ''custom_model'' \<Longrightarrow> sm_objects s k = Some r
           \<Longrightarrow> cls (heap s r) = Group"
    and "\<And>k objectData. oc_objects s k = Some objectData
           \<Longrightarrow> od_type objectData \<noteq> ''custom_model''
           \<Longrightarrow> od_isCustomModel objectData = None"
    and "\<And>i url. (i, url) \<in> set (loading s) \<Longrightarrow> ends_with_digit i \<and> url \<noteq> []"
  shows "objects_inv s"
  unfolding objects_inv_def
proof (intro conjI allI impI)
  fix k objectData assume a: "oc_objects s k = Some objectData"
  show "if od_type objectData = ''custom_model''
        then od_isCustomModel objectData = Some True
             \<and> (\<exists>url. od_modelUrl objectData = Some url \<and> url \<noteq> [])
             \<and> (\<forall>r. sm_objects s k = Some r \<longrightarrow> cls (heap s r) = Group)
        else od_isCustomModel objectData = None"
    using assms(3) [OF a] assms(4) [OF a] assms(5) [OF a] by simp
qed (use assms in blast)+

text \<open>A step that leaves the records and the loads alone, and may add or drop helpers.\<close>

lemma objects_inv_helpers:
  assumes inv: "objects_inv s"
    and oc: "oc_objects s' = oc_objects s" and ld: "loading s' = loading s"
    and ext: "heap_extends s s'"
    and keep: "\<And>k. ends_with_digit k \<Longrightarrow> sm_objects s' k = sm_objects s k"
    and refs: "\<And>k r. sm_objects s' k = Some r \<Longrightarrow> sm_objects s k = Some r \<or> r < nextRef s'"
  shows "objects_inv s'"
proof (rule objects_invI)
  note d = objects_invD [OF inv]
  have le: "nextRef s \<le> nextRef s'"
    and hp: "\<And>r. r < nextRef s \<Longrightarrow> cls (heap s' r) = cls (heap s r)"
    using ext unfolding heap_extends_def by simp_all
  show "r < nextRef s'" if "sm_objects s' k = Some r" for k r
    using refs [OF that] d(1) [of k r] le by auto
  show "ends_with_digit k" if "oc_objects s' k = Some objectData" for k objectData
    using that d(2) [of k objectData] by (simp add: oc)
  show "od_isCustomModel objectData = Some True
          \<and> (\<exists>url. od_modelUrl objectData = Some url \<and> url \<noteq> [])"
    if "oc_objects s' k = Some objectData" "od_type objectData = ''custom_model''"
    for k objectData
    using that d(3) [of k objectData] by (simp add: oc)
  show "cls (heap s' r) = Group"
    if a: "oc_objects s' k = Some objectData" and b: "od_type objectData = ''custom_model''"
      and c: "sm_objects s' k = Some r"
    for k objectData r
  proof -
    have a': "oc_objects s k = Some objectData" using a by (simp add: oc)
    have "ends_with_digit k" using a' by (rule d(2))
    then have c': "sm_objects s k = Some r" using c by (simp add: keep)
    have "r < nextRef s" using c' by (rule d(1))
    then show ?thesis using d(4) [OF a' b c'] hp by simp
  qed
  show "od_isCustomModel objectData = None"
    if "oc_objects s' k = Some objectData" "od_type objectData \<noteq> ''custom_model''"
    for k objectData
    using that d(5) [of k objectData] by (simp add: oc)
  show "ends_with_digit i \<and> url \<noteq> []" if "(i, url) \<in> set (loading s')" for i url
    using that d(6) [of i url] by (simp add: ld)
qed

lemma objects_inv_frame:
  assumes inv: "objects_inv s" and fr: "objects_frame s s'" and ext: "heap_extends s s'"
  shows "objects_inv s'"
proof (rule objects_inv_helpers [OF inv _ _ ext])
  show "oc_objects s' = oc_objects s" "loading s' = loading s"
    using fr unfolding objects_frame_def by simp_all
  show "sm_objects s' k = sm_objects s k" for k
    using fr unfolding objects_frame_def by simp
  show "sm_objects s k = Some r \<or> r < nextRef s'" if "sm_objects s' k = Some r" for k r
    using that fr unfolding objects_frame_def by simp
qed

text \<open>A step that changes the loads only, to loads that were in flight or are well formed.\<close>

lemma objects_inv_loading:
  assumes inv: "objects_inv s"
    and oc: "oc_objects s' = oc_objects s" and sm: "sm_objects s' = sm_objects s"
    and nr: "nextRef s' = nextRef s" and hp: "heap s' = heap s"
    and ld: "\<And>i url. (i, url) \<in> set (loading s')
               \<Longrightarrow> (i, url) \<in> set (loading s) \<or> (ends_with_digit i \<and> url \<noteq> [])"
  shows "objects_inv s'"
proof (rule objects_invI)
  note d = objects_invD [OF inv]
  show "r < nextRef s'" if "sm_objects s' k = Some r" for k r
    using that d(1) [of k r] by (simp add: sm nr)
  show "ends_with_digit k" if "oc_objects s' k = Some objectData" for k objectData
    using that d(2) [of k objectData] by (simp add: oc)
  show "od_isCustomModel objectData = Some True
          \<and> (\<exists>url. od_modelUrl objectData = Some url \<and> url \<noteq> [])"
    if "oc_objects s' k = Some objectData" "od_type objectData = ''custom_model''"
    for k objectData
    using that d(3) [of k objectData] by (simp add: oc)
  show "cls (heap s' r) = Group"
    if "oc_objects s' k = Some objectData" "od_type objectData = ''custom_model''"
      "sm_objects s' k = Some r"
    for k objectData r
    using that d(4) [of k objectData r] by (simp add: oc sm hp)
  show "od_isCustomModel objectData = None"
    if "oc_objects s' k = Some objectData" "od_type objectData \<noteq> ''custom_model''"
    for k objectData
    using that d(5) [of k objectData] by (simp add: oc)
  show "ends_with_digit i \<and> url \<noteq> []" if "(i, url) \<in> set (loading s')" for i url
    using ld [OF that] d(6) [of i url] by blast
qed

text \<open>A step that stores a new object and its record under one identifier.\<close>

lemma objects_inv_add:
  assumes inv: "objects_inv s"
    and sm: "sm_objects s' = (sm_objects s)(i \<mapsto> nextRef s)"
    and oc: "oc_objects s' = (oc_objects s)(i \<mapsto> od)"
    and dg: "ends_with_digit i"
    and lt: "nextRef s < nextRef s'" and ext: "heap_extends s s'"
    and ld: "set (loading s') \<subseteq> set (loading s)"
    and custom: "od_type od = ''custom_model'' \<Longrightarrow>
        od_isCustomModel od = Some True \<and> (\<exists>url. od_modelUrl od = Some url \<and> url \<noteq> [])
        \<and> cls (heap s' (nextRef s)) = Group"
    and primitive: "od_type od \<noteq> ''custom_model'' \<Longrightarrow> od_isCustomModel od = None"
  shows "objects_inv s'"
proof (rule objects_invI)
  note d = objects_invD [OF inv]
  have hp: "\<And>r. r < nextRef s \<Longrightarrow> cls (heap s' r) = cls (heap s r)"
    using ext unfolding heap_extends_def by simp
  show "r < nextRef s'" if "sm_objects s' k = Some r" for k r
    using that d(1) [of k r] lt by (auto simp add: sm split: if_splits)
  show "ends_with_digit k" if "oc_objects s' k = Some objectData" for k objectData
    using that d(2) [of k objectData] dg by (auto simp add: oc split: if_splits)
  show "od_isCustomModel objectData = Some True
          \<and> (\<exists>url. od_modelUrl objectData = Some url \<and> url \<noteq> [])"
    if "oc_objects s' k = Some objectData" "od_type objectData = ''custom_model''"
    for k objectData
    using that d(3) [of k objectData] custom by (auto simp add: oc split: if_splits)
  show "cls (heap s' r) = Group"
    if a: "oc_objects s' k = Some objectData" and b: "od_type objectData = ''custom_model''"
      and c: "sm_objects s' k = Some r"
    for k objectData r
  proof (cases "k = i")
    case True
    then have "objectData = od" "r = nextRef s" using a c by (simp_all add: oc sm)
    then show ?thesis using custom b by simp
  next
    case False
    then have a': "oc_objects s k = Some objectData" and c': "sm_objects s k = Some r"
      using a c by (simp_all add: oc sm)
    have "r < nextRef s" using c' by (rule d(1))
    then show ?thesis using d(4) [OF a' b c'] hp by simp
  qed
  show "od_isCustomModel objectData = None"
    if "oc_objects s' k = Some objectData" "od_type objectData \<noteq> ''custom_model''"
    for k objectData
    using that d(5) [of k objectData] primitive by (auto simp add: oc split: if_splits)
  show "ends_with_digit i' \<and> url \<noteq> []" if "(i', url) \<in> set (loading s')" for i' url
    using that ld d(6) [of i' url] by blast
qed

text \<open>A step that drops the object and the record of one identifier.\<close>

lemma objects_inv_remove:
  assumes inv: "objects_inv s"
    and sm: "sm_objects s' = (sm_objects s)(i := None)"
    and oc: "oc_objects s' = (oc_objects s)(i := None)"
    and ld: "loading s' = loading s" and nr: "nextRef s' = nextRef s" and hp: "heap s' = heap s"
  shows "objects_inv s'"
proof (rule objects_invI)
  note d = objects_invD [OF inv]
  show "r < nextRef s'" if "sm_objects s' k = Some r" for k r
    using that d(1) [of k r] by (simp add: sm nr split: if_splits)
  show "ends_with_digit k" if "oc_objects s' k = Some objectData" for k objectData
    using that d(2) [of k objectData] by (simp add: oc split: if_splits)
  show "od_isCustomModel objectData = Some True
          \<and> (\<exists>url. od_modelUrl objectData = Some url \<and> url \<noteq> [])"
    if "oc_objects s' k = Some objectData" "od_type objectData = ''custom_model''"
    for k objectData
    using that d(3) [of k objectData] by (simp add: oc split: if_splits)
  show "cls (heap s' r) = Group"
    if "oc_objects s' k = Some objectData" "od_type objectData = ''custom_model''"
      "sm_objects s' k = Some r"
    for k objectData r
    using that d(4) [of k objectData r] by (simp add: oc sm hp split: if_splits)
  show "od_isCustomModel objectData = None"
    if "oc_objects s' k = Some objectData" "od_type objectData \<noteq> ''custom_model''"
    for k objectData
    using that d(5) [of k objectData] by (simp add: oc split: if_splits)
  show "ends_with_digit i' \<and> url \<noteq> []" if "(i', url) \<in> set (loading s')" for i' url
    using that d(6) [of i' url] by (simp add: ld)
qed

text \<open>An edit of one record that keeps its kind, its flag and its URL.\<close>

lemma objects_inv_edit:
  assumes inv: "objects_inv s"
    and old: "oc_objects s i = Some od"
    and oc: "oc_objects s' = (oc_objects s)(i \<mapsto> od')"
    and same: "od_type od' = od_type od" "od_isCustomModel od' = od_isCustomModel od"
      "od_modelUrl od' = od_modelUrl od"
    and sm: "sm_objects s' = sm_objects s" and ld: "loading s' = loading s"
    and nr: "nextRef s' = nextRef s" and hp: "\<And>r. cls (heap s' r) = cls (heap s r)"
  shows "objects_inv s'"
proof (rule objects_invI)
  note d = objects_invD [OF inv]
  show "r < nextRef s'" if "sm_objects s' k = Some r" for k r
    using that d(1) [of k r] by (simp add: sm nr)
  show "ends_with_digit k" if "oc_objects s' k = Some objectData" for k objectData
    using that d(2) [of k objectData] d(2) [OF old] by (auto simp add: oc split: if_splits)
  show "od_isCustomModel objectData = Some True
          \<and> (\<exists>url. od_modelUrl objectData = Some url \<and> url \<noteq> [])"
    if "oc_objects s' k = Some objectData" "od_type objectData = ''custom_model''"
    for k objectData
    using that d(3) [of k objectData] d(3) [OF old] same
    by (auto simp add: oc split: if_splits)
  show "cls (heap s' r) = Group"
    if "oc_objects s' k = Some objectData" "od_type objectData = ''custom_model''"
      "sm_objects s' k = Some r"
    for k objectData r
    using that d(4) [of k objectData r] d(4) [OF old, of r] same
    by (auto simp add: oc sm hp split: if_splits)
  show "od_isCustomModel objectData = None"
    if "oc_objects s' k = Some objectData" "od_type objectData \<noteq> ''custom_model''"
    for k objectData
    using that d(5) [of k objectData] d(5) [OF old] same
    by (auto simp add: oc split: if_splits)
  show "ends_with_digit i' \<and> url \<noteq> []" if "(i', url) \<in> set (loading s')" for i' url
    using that d(6) [of i' url] by (simp add: ld)
qed

lemma objects_inv_addLight:
  assumes inv: "objects_inv s" shows "objects_inv (LightController_addLight ty s)"
proof (rule objects_inv_helpers [OF inv])
  show "heap_extends s (LightController_addLight ty s)"
    using handle_heap_extends [of s "ClickAddLight ty"] by simp
  show "oc_objects (LightController_addLight ty s) = oc_objects s"
    by (rule addLight_objects(1))
  show "loading (LightController_addLight ty s) = loading s"
    by (rule addLight_objects(2))
  show "sm_objects (LightController_addLight ty s) k = sm_objects s k"
    if "ends_with_digit k" for k
    using that by (rule addLight_objects(3))
  show "sm_objects s k = Some r \<or> r < nextRef (LightController_addLight ty s)"
    if "sm_objects (LightController_addLight ty s) k = Some r" for k r
    using that by (rule addLight_objects(4))
qed

lemma objects_inv_removeLight:
  assumes inv: "objects_inv s" shows "objects_inv (LightController_removeLight i s)"
proof (rule objects_inv_helpers [OF inv])
  show "heap_extends s (LightController_removeLight i s)"
    by (simp add: heap_extends_def removeLight_effect)
  show "oc_objects (LightController_removeLight i s) = oc_objects s"
    by (rule removeLight_objects(1))
  show "loading (LightController_removeLight i s) = loading s"
    by (rule removeLight_objects(2))
  show "sm_objects (LightController_removeLight i s) k = sm_objects s k"
    if "ends_with_digit k" for k
    using that by (rule removeLight_objects(4))
  show "sm_objects s k = Some r \<or> r < nextRef (LightController_removeLight i s)"
    if "sm_objects (LightController_removeLight i s) k = Some r" for k r
    using removeLight_objects(5) [OF that] by simp
qed

lemma addObject_switch_Inr:
  "addObject_switch ty = Inr g \<Longrightarrow> ty \<noteq> ''custom_model''"
  by (auto simp add: addObject_switch_def split: if_splits)

lemma addObject_effect:
  assumes "addObject_switch ty = Inr g"
  shows "sm_objects (snd (ObjectController_addObject ty r1 r2 s))
           = (sm_objects s)(ObjectController_newId ty s \<mapsto> nextRef s)"
    and "nextRef s < nextRef (snd (ObjectController_addObject ty r1 r2 s))"
    and "loading (snd (ObjectController_addObject ty r1 r2 s)) = loading s"
    and "\<exists>od. oc_objects (snd (ObjectController_addObject ty r1 r2 s))
                 = (oc_objects s)(ObjectController_newId ty s \<mapsto> od)
              \<and> od_type od = ty \<and> od_isCustomModel od = None"
  using assms by (simp_all add: op_defs Let_def) (intro exI conjI, rule refl, simp_all)

lemma addObject_error:
  assumes "addObject_switch ty = Inl e"
  shows "snd (ObjectController_addObject ty r1 r2 s) = s\<lparr>objectCounter := objectCounter s + 1\<rparr>"
  using assms by (simp add: op_defs Let_def)

lemma objects_inv_addObject:
  assumes inv: "objects_inv s"
  shows "objects_inv (snd (ObjectController_addObject ty r1 r2 s))"
proof (cases "addObject_switch ty")
  case (Inl e)
  have "objects_inv (s\<lparr>objectCounter := objectCounter s + 1\<rparr>)"
    by (rule objects_inv_frame [OF inv]) (simp_all add: objects_frame_def heap_extends_def)
  then show ?thesis by (simp add: addObject_error [OF Inl])
next
  case (Inr g)
  let ?s' = "snd (ObjectController_addObject ty r1 r2 s)"
  note e = addObject_effect [OF Inr]
  obtain od where od: "oc_objects ?s' = (oc_objects s)(ObjectController_newId ty s \<mapsto> od)"
      "od_type od = ty" "od_isCustomModel od = None"
    using e(4) by blast
  have ne: "od_type od \<noteq> ''custom_model''" using od(2) addObject_switch_Inr [OF Inr] by simp
  show ?thesis
  proof (rule objects_inv_add [OF inv e(1) od(1)])
    show "ends_with_digit (ObjectController_newId ty s)"
      unfolding ObjectController_newId_def by (rule ends_with_digit_id)
    show "heap_extends s ?s'"
      using Inr by (auto simp add: heap_extends_def op_defs Let_def)
  qed (use e od ne in simp_all)
qed

lemma removeObject_effect:
  assumes "oc_objects s i = Some od"
  shows "sm_objects (ObjectController_removeObject i s) = (sm_objects s)(i := None)"
    and "oc_objects (ObjectController_removeObject i s) = (oc_objects s)(i := None)"
    and "loading (ObjectController_removeObject i s) = loading s"
    and "nextRef (ObjectController_removeObject i s) = nextRef s"
    and "heap (ObjectController_removeObject i s) = heap s"
  using assms by (auto simp add: op_defs Let_def split: option.splits)

lemma objects_inv_removeObject:
  assumes inv: "objects_inv s" shows "objects_inv (ObjectController_removeObject i s)"
proof (cases "oc_objects s i")
  case None
  then have "ObjectController_removeObject i s = s"
    by (simp add: ObjectController_removeObject_def)
  then show ?thesis using inv by simp
next
  case (Some od)
  show ?thesis
    by (rule objects_inv_remove [OF inv]) (simp_all add: removeObject_effect [OF Some])
qed

lemma objects_inv_updateObjectColor:
  assumes inv: "objects_inv s" shows "objects_inv (updateObjectColor i color s)"
proof (cases "sm_objects s i = None \<or> oc_objects s i = None")
  case True
  then have "updateObjectColor i color s = s"
    by (auto simp add: updateObjectColor_def SceneManager_getObject_def split: option.splits)
  then show ?thesis using inv by simp
next
  case False
  then obtain r od where l: "sm_objects s i = Some r" and m: "oc_objects s i = Some od" by auto
  show ?thesis
  proof (cases "instanceof_Mesh (cls (heap s r))")
    case False
    then have "updateObjectColor i color s = s"
      by (simp add: updateObjectColor_def SceneManager_getObject_def l m)
    then show ?thesis using inv by simp
  next
    case True
    show ?thesis
      by (rule objects_inv_edit [OF inv m, where od' = "od\<lparr>od_color := color\<rparr>"])
        (use True in \<open>simp_all add: l m op_defs Let_def\<close>)
  qed
qed

lemma objects_inv_updateObjectRoughness:
  assumes inv: "objects_inv s" shows "objects_inv (updateObjectRoughness i v s)"
proof (cases "sm_objects s i = None \<or> oc_objects s i = None")
  case True
  then have "updateObjectRoughness i v s = s"
    by (auto simp add: updateObjectRoughness_def SceneManager_getObject_def split: option.splits)
  then show ?thesis using inv by simp
next
  case False
  then obtain r od where l: "sm_objects s i = Some r" and m: "oc_objects s i = Some od" by auto
  show ?thesis
  proof (cases "instanceof_Mesh (cls (heap s r))")
    case False
    then have "updateObjectRoughness i v s = s"
      by (simp add: updateObjectRoughness_def SceneManager_getObject_def l m)
    then show ?thesis using inv by simp
  next
    case True
    show ?thesis
      by (rule objects_inv_edit [OF inv m, where od' = "od\<lparr>od_roughness := v\<rparr>"])
        (use True in \<open>simp_all add: l m op_defs Let_def\<close>)
  qed
qed

lemma objects_inv_updateObjectMetalness:
  assumes inv: "objects_inv s" shows "objects_inv (updateObjectMetalness i v s)"
proof (cases "sm_objects s i = None \<or> oc_objects s i = None")
  case True
  then have "updateObjectMetalness i v s = s"
    by (auto simp add: updateObjectMetalness_def SceneManager_getObject_def split: option.splits)
  then show ?thesis using inv by simp
next
  case False
  then obtain r od where l: "sm_objects s i = Some r" and m: "oc_objects s i = Some od" by auto
  show ?thesis
  proof (cases "instanceof_Mesh (cls (heap s r))")
    case False
    then have "updateObjectMetalness i v s = s"
      by (simp add: updateObjectMetalness_def SceneManager_getObject_def l m)
    then show ?thesis using inv by simp
  next
    case True
    show ?thesis
      by (rule objects_inv_edit [OF inv m, where od' = "od\<lparr>od_metalness := v\<rparr>"])
        (use True in \<open>simp_all add: l m op_defs Let_def\<close>)
  qed
qed

lemma objects_inv_updateObjectPosition:
  assumes inv: "objects_inv s" shows "objects_inv (updateObjectPosition i p s)"
proof (cases "sm_objects s i = None \<or> oc_objects s i = None")
  case True
  then have "updateObjectPosition i p s = s"
    by (auto simp add: updateObjectPosition_def SceneManager_getObject_def split: option.splits)
  then show ?thesis using inv by simp
next
  case False
  then obtain r od where l: "sm_objects s i = Some r" and m: "oc_objects s i = Some od" by auto
  show ?thesis
    by (rule objects_inv_edit [OF inv m, where od' = "od\<lparr>od_position := p\<rparr>"])
      (simp_all add: l m op_defs Let_def)
qed

lemma objects_inv_updateObjectRotation:
  assumes inv: "objects_inv s" shows "objects_inv (updateObjectRotation i p s)"
proof (cases "sm_objects s i = None \<or> oc_objects s i = None")
  case True
  then have "updateObjectRotation i p s = s"
    by (auto simp add: updateObjectRotation_def SceneManager_getObject_def split: option.splits)
  then show ?thesis using inv by simp
next
  case False
  then obtain r od where l: "sm_objects s i = Some r" and m: "oc_objects s i = Some od" by auto
  show ?thesis
    by (rule objects_inv_edit [OF inv m, where od' = "od\<lparr>od_rotation := p\<rparr>"])
      (simp_all add: l m op_defs Let_def)
qed

lemma objects_inv_updateObjectScale:
  assumes inv: "objects_inv s" shows "objects_inv (updateObjectScale i p s)"
proof (cases "sm_objects s i = None \<or> oc_objects s i = None")
  case True
  then have "updateObjectScale i p s = s"
    by (auto simp add: updateObjectScale_def SceneManager_getObject_def split: option.splits)
  then show ?thesis using inv by simp
next
  case False
  then obtain r od where l: "sm_objects s i = Some r" and m: "oc_objects s i = Some od" by auto
  show ?thesis
    by (rule objects_inv_edit [OF inv m, where od' = "od\<lparr>od_scale := p\<rparr>"])
      (simp_all add: l m op_defs Let_def)
qed

lemma objects_inv_handleModelUpload:
  assumes inv: "objects_inv s" shows "objects_inv (handleModelUpload uuid s)"
proof (rule objects_inv_loading [OF inv])
  show "(i, url) \<in> set (loading s) \<or> ends_with_digit i \<and> url \<noteq> []"
    if "(i, url) \<in> set (loading (handleModelUpload uuid s))" for i url
    using that ends_with_digit_id [of "''model''" "modelCounter s + 1"]
    by (auto simp add: op_defs Let_def createObjectURL_def)
qed (simp_all add: op_defs Let_def)

lemma objects_inv_drop_load:
  assumes inv: "objects_inv s"
  shows "objects_inv (s\<lparr>loading := remove1 x (loading s)\<rparr>)"
proof (rule objects_inv_loading [OF inv])
  show "(i, url) \<in> set (loading s) \<or> ends_with_digit i \<and> url \<noteq> []"
    if "(i, url) \<in> set (loading (s\<lparr>loading := remove1 x (loading s)\<rparr>))" for i url
    using that set_remove1_subset [of x "loading s"] by auto
qed simp_all

lemma onLoad_effect:
  "sm_objects (handleModelUpload_onLoad i url c b s) = (sm_objects s)(i \<mapsto> nextRef s)"
  "nextRef s < nextRef (handleModelUpload_onLoad i url c b s)"
  "loading (handleModelUpload_onLoad i url c b s) = loading s"
  "cls (heap (handleModelUpload_onLoad i url c b s) (nextRef s)) = Group"
  "heap_extends s (handleModelUpload_onLoad i url c b s)"
  "\<exists>od. oc_objects (handleModelUpload_onLoad i url c b s) = (oc_objects s)(i \<mapsto> od)
        \<and> od_type od = ''custom_model'' \<and> od_isCustomModel od = Some True
        \<and> od_modelUrl od = Some url"
  by (simp_all add: op_defs Let_def heap_extends_def) (intro exI conjI, rule refl, simp_all)

lemma objects_inv_onLoad:
  assumes inv: "objects_inv s" and dg: "ends_with_digit i" and ne: "url \<noteq> []"
  shows "objects_inv (handleModelUpload_onLoad i url c b s)"
proof -
  let ?s' = "handleModelUpload_onLoad i url c b s"
  note e = onLoad_effect
  obtain od where od: "oc_objects ?s' = (oc_objects s)(i \<mapsto> od)"
      "od_type od = ''custom_model''" "od_isCustomModel od = Some True"
      "od_modelUrl od = Some url"
    using e(6) by blast
  show ?thesis
    by (rule objects_inv_add [OF inv e(1) od(1) dg e(2) e(5)])
      (use e od ne in simp_all)
qed

lemma objects_inv_onError:
  assumes inv: "objects_inv s" shows "objects_inv (handleModelUpload_onError message s)"
  by (rule objects_inv_frame [OF inv])
    (simp_all add: objects_frame_def heap_extends_def op_defs)

lemma objects_inv_fire:
  assumes inv: "objects_inv s" shows "objects_inv (fire e s)"
proof (cases "wired s e")
  case False
  then show ?thesis using inv by (simp add: fire_def)
next
  case True
  then have f: "fire e s = handle e s" by (simp add: fire_def)
  show ?thesis
  proof (cases "object_frame_event e")
    case True
    then show ?thesis
      using objects_inv_frame [OF inv handle_objects_frame handle_heap_extends] f by simp
  next
    case nf: False
    show ?thesis
    proof (cases e)
      case (ClickAddLight ty)
      then show ?thesis using f objects_inv_addLight [OF inv] by simp
    next
      case (ClickRemoveLight k)
      then show ?thesis using f inv objects_inv_removeLight [OF inv]
        by (simp split: option.splits)
    next
      case (ClickAddObject kind r1 r2)
      then show ?thesis using f objects_inv_addObject [OF inv] by simp
    next
      case (ClickRemoveObject k)
      then show ?thesis using f inv objects_inv_removeObject [OF inv]
        by (simp split: option.splits)
    next
      case (ChangeObjectColor k color)
      then show ?thesis using f inv objects_inv_updateObjectColor [OF inv]
        by (simp split: option.splits)
    next
      case (InputObjectRoughness k v)
      then show ?thesis using f inv objects_inv_updateObjectRoughness [OF inv]
        by (simp split: option.splits)
    next
      case (InputObjectMetalness k v)
      then show ?thesis using f inv objects_inv_updateObjectMetalness [OF inv]
        by (simp split: option.splits)
    next
      case (InputObjectPosition k index v)
      then show ?thesis using f inv objects_inv_updateObjectPosition [OF inv]
        by (simp add: objectPosition_oninput_def Let_def split: option.splits)
    next
      case (InputObjectRotation k index v)
      then show ?thesis using f inv objects_inv_updateObjectRotation [OF inv]
        by (simp add: objectRotation_oninput_def Let_def split: option.splits)
    next
      case (InputObjectScale k index v)
      then show ?thesis using f inv objects_inv_updateObjectScale [OF inv]
        by (simp add: objectScale_oninput_def Let_def split: option.splits)
    next
      case (UploadModel uuid)
      then show ?thesis using f objects_inv_handleModelUpload [OF inv] by simp
    next
      case (LoaderOnLoad i url c b)
      then have "(i, url) \<in> set (loading s)" using True by simp
      then have w: "ends_with_digit i" "url \<noteq> []"
        using objects_invD(6) [OF inv, of i url] by simp_all
      have "objects_inv (s\<lparr>loading := remove1 (i, url) (loading s)\<rparr>)"
        by (rule objects_inv_drop_load [OF inv])
      then show ?thesis using f LoaderOnLoad objects_inv_onLoad w by simp
    next
      case (LoaderOnError i url message)
      have "objects_inv (s\<lparr>loading := remove1 (i, url) (loading s)\<rparr>)"
        by (rule objects_inv_drop_load [OF inv])
      then show ?thesis using f LoaderOnError objects_inv_onError by simp
    qed (use nf in simp_all)
  qed
qed

lemma objects_inv_run: "objects_inv s \<Longrightarrow> objects_inv (run evs s)"
  by (induction evs arbitrary: s) (simp_all add: objects_inv_fire)

lemma objects_inv_start: "objects_inv App_start"
  unfolding objects_inv_def by (simp add: start_defs Let_def)

section \<open>Imported models\<close>

text \<open>
  C6. In every state the application reaches, for an identifier whose metadata record is
  that of an imported model, each of the three edits of the material (colour, roughness,
  metalness) returns the state it was given: neither the record nor the object in the
  registry changes, and nothing is thrown.
\<close>

theorem imported_model_material_edits_are_noops:
  assumes "oc_objects (run evs App_start) i = Some objectData"
    and "od_type objectData = ''custom_model''"
  shows "updateObjectColor i color (run evs App_start) = run evs App_start
     \<and> updateObjectRoughness i v (run evs App_start) = run evs App_start
     \<and> updateObjectMetalness i v (run evs App_start) = run evs App_start"
proof -
  let ?s = "run evs App_start"
  have inv: "objects_inv ?s" by (rule objects_inv_run [OF objects_inv_start])
  show ?thesis
  proof (cases "sm_objects ?s i")
    case None
    then show ?thesis
      by (simp add: updateObjectColor_def updateObjectRoughness_def updateObjectMetalness_def
          SceneManager_getObject_def)
  next
    case (Some r)
    have "cls (heap ?s r) = Group" using objects_invD(4) [OF inv assms Some] .
    then show ?thesis using Some assms(1)
      by (simp add: updateObjectColor_def updateObjectRoughness_def updateObjectMetalness_def
          SceneManager_getObject_def instanceof_Mesh_def)
  qed
qed

theorem imported_model_material_edits_are_noops_witness:
  "map_option od_type
     (oc_objects (run [UploadModel ''u1'',
        LoaderOnLoad ''model_1'' ''blob:u1'' (Vector3 0 0 0) (Vector3 10 10 10)] App_start)
        ''model_1'') = Some ''custom_model''
   \<and> updateObjectColor ''model_1'' ''#ff0000''
        (run [UploadModel ''u1'',
          LoaderOnLoad ''model_1'' ''blob:u1'' (Vector3 0 0 0) (Vector3 10 10 10)] App_start)
       = run [UploadModel ''u1'',
          LoaderOnLoad ''model_1'' ''blob:u1'' (Vector3 0 0 0) (Vector3 10 10 10)] App_start
   \<and> updateObjectRoughness ''model_1'' (1 / 4)
        (run [UploadModel ''u1'',
          LoaderOnLoad ''model_1'' ''blob:u1'' (Vector3 0 0 0) (Vector3 10 10 10)] App_start)
       = run [UploadModel ''u1'',
          LoaderOnLoad ''model_1'' ''blob:u1'' (Vector3 0 0 0) (Vector3 10 10 10)] App_start"
proof -
  let ?s = "run [UploadModel ''u1'',
    LoaderOnLoad ''model_1'' ''blob:u1'' (Vector3 0 0 0) (Vector3 10 10 10)] App_start"
  have a: "map_option od_type (oc_objects ?s ''model_1'') = Some ''custom_model''"
    by (simp add: start_defs handler_defs upload_defs number_toString_1 Let_def)
  then obtain x where x: "oc_objects ?s ''model_1'' = Some x" and t: "od_type x = ''custom_model''"
    by auto
  show ?thesis
    using a imported_model_material_edits_are_noops [OF x t, of "''#ff0000''" "1 / 4"] by simp
qed

text \<open>
  C5. In every state the application reaches, removing an object whose record is that of
  an imported model releases the URL of the record once: the trace grows by one
  \<open>revokeObjectURL\<close> of that URL and the rendering of the panel. Removing a primitive
  releases nothing. Removing the same identifier again returns the state unchanged, so
  nothing is released a second time.
\<close>

theorem removeObject_releases_once:
  assumes "oc_objects (run evs App_start) i = Some objectData"
  shows "(od_type objectData = ''custom_model'' \<longrightarrow>
            (\<exists>url. od_modelUrl objectData = Some url
               \<and> effects (ObjectController_removeObject i (run evs App_start))
                   = effects (run evs App_start) @ [RevokeObjectURL url, RenderObjectUI]))
     \<and> (od_type objectData \<noteq> ''custom_model'' \<longrightarrow>
            effects (ObjectController_removeObject i (run evs App_start))
              = effects (run evs App_start) @ [RenderObjectUI])
     \<and> ObjectController_removeObject i (ObjectController_removeObject i (run evs App_start))
         = ObjectController_removeObject i (run evs App_start)"
proof -
  let ?s = "run evs App_start"
  have inv: "objects_inv ?s" by (rule objects_inv_run [OF objects_inv_start])
  have 1: "\<exists>url. od_modelUrl objectData = Some url
               \<and> effects (ObjectController_removeObject i ?s)
                   = effects ?s @ [RevokeObjectURL url, RenderObjectUI]"
    if c: "od_type objectData = ''custom_model''"
  proof -
    obtain url where u: "od_isCustomModel objectData = Some True"
        "od_modelUrl objectData = Some url" "url \<noteq> []"
      using objects_invD(3) [OF inv assms c] by blast
    have "effects (ObjectController_removeObject i ?s)
            = effects ?s @ [RevokeObjectURL url, RenderObjectUI]"
      using assms u by (simp add: op_defs Let_def split: option.splits)
    then show ?thesis using u(2) by simp
  qed
  have 2: "effects (ObjectController_removeObject i ?s) = effects ?s @ [RenderObjectUI]"
    if c: "od_type objectData \<noteq> ''custom_model''"
  proof -
    have "od_isCustomModel objectData = None" using objects_invD(5) [OF inv assms c] .
    then show ?thesis using assms by (simp add: op_defs Let_def split: option.splits)
  qed
  have "oc_objects (ObjectController_removeObject i ?s) i = None"
    by (simp add: removeObject_effect(2) [OF assms])
  then have 3: "ObjectController_removeObject i (ObjectController_removeObject i ?s)
         = ObjectController_removeObject i ?s"
    by (simp add: ObjectController_removeObject_def [of i "ObjectController_removeObject i ?s"])
  show ?thesis using 1 2 3 by blast
qed

theorem removeObject_releases_once_witness:
  "map_option od_type
     (oc_objects (run [UploadModel ''u1'',
        LoaderOnLoad ''model_1'' ''blob:u1'' (Vector3 0 0 0) (Vector3 10 10 10)] App_start)
        ''model_1'') = Some ''custom_model''
   \<and> effects (ObjectController_removeObject ''model_1''
        (run [UploadModel ''u1'',
          LoaderOnLoad ''model_1'' ''blob:u1'' (Vector3 0 0 0) (Vector3 10 10 10)] App_start))
       = effects (run [UploadModel ''u1'',
          LoaderOnLoad ''model_1'' ''blob:u1'' (Vector3 0 0 0) (Vector3 10 10 10)] App_start)
         @ [RevokeObjectURL ''blob:u1'', RenderObjectUI]
   \<and> ObjectController_removeObject ''model_1'' (ObjectController_removeObject ''model_1''
        (run [UploadModel ''u1'',
          LoaderOnLoad ''model_1'' ''blob:u1'' (Vector3 0 0 0) (Vector3 10 10 10)] App_start))
       = ObjectController_removeObject ''model_1''
        (run [UploadModel ''u1'',
          LoaderOnLoad ''model_1'' ''blob:u1'' (Vector3 0 0 0) (Vector3 10 10 10)] App_start)
   \<and> map_option od_type (oc_objects (run [ClickAddObject Box 0 0] App_start) ''box_1'')
       = Some ''box''
   \<and> effects (ObjectController_removeObject ''box_1'' (run [ClickAddObject Box 0 0] App_start))
       = effects (run [ClickAddObject Box 0 0] App_start) @ [RenderObjectUI]"
proof -
  let ?s = "run [UploadModel ''u1'',
    LoaderOnLoad ''model_1'' ''blob:u1'' (Vector3 0 0 0) (Vector3 10 10 10)] App_start"
  let ?t = "run [ClickAddObject Box 0 0] App_start"
  have a: "map_option od_type (oc_objects ?s ''model_1'') = Some ''custom_model''"
    and u: "map_option od_modelUrl (oc_objects ?s ''model_1'') = Some (Some ''blob:u1'')"
    by (simp_all add: start_defs handler_defs upload_defs number_toString_1 Let_def)
  have b: "map_option od_type (oc_objects ?t ''box_1'') = Some ''box''"
    by (simp add: start_defs handler_defs number_toString_1 Let_def)
  obtain x where x: "oc_objects ?s ''model_1'' = Some x" using a by auto
  obtain y where y: "oc_objects ?t ''box_1'' = Some y" using b by auto
  show ?thesis
    using a b u x y removeObject_releases_once [OF x] removeObject_releases_once [OF y]
    by auto
qed

section \<open>Identifiers are never reused\<close>

lemma digit_char_inj: "d < 10 \<Longrightarrow> e < 10 \<Longrightarrow> digit_char d = digit_char e \<Longrightarrow> d = e"
proof -
  assume d: "d < 10" and e: "e < 10" and eq: "digit_char d = digit_char e"
  have dist: "distinct ''0123456789''" by simp
  show "d = e"
    using dist d e eq unfolding digit_char_def
    by (simp add: nth_eq_iff_index_eq)
qed

lemma number_toString_small: "n < 10 \<Longrightarrow> number_toString n = [digit_char n]"
  by (subst number_toString.simps) simp

lemma number_toString_large:
  "\<not> n < 10 \<Longrightarrow> number_toString n = number_toString (n div 10) @ [digit_char (n mod 10)]"
  by (subst number_toString.simps) simp

lemma number_toString_nonempty: "number_toString n \<noteq> []"
  by (cases "n < 10") (simp_all add: number_toString_small number_toString_large)

lemma number_toString_inj: "number_toString m = number_toString n \<Longrightarrow> m = n"
proof (induction m arbitrary: n rule: number_toString.induct)
  case (1 m)
  show ?case
  proof (cases "m < 10")
    case m: True
    show ?thesis
    proof (cases "n < 10")
      case True
      with m 1(2) show ?thesis
        by (simp add: number_toString_small digit_char_inj)
    next
      case False
      then show ?thesis
        using 1(2) m number_toString_nonempty [of "n div 10"]
        by (simp add: number_toString_small number_toString_large)
    qed
  next
    case m: False
    show ?thesis
    proof (cases "n < 10")
      case True
      then show ?thesis
        using 1(2) m number_toString_nonempty [of "m div 10"]
        by (simp add: number_toString_small number_toString_large)
    next
      case False
      from 1(2) m False have a: "number_toString (m div 10) = number_toString (n div 10)"
        and b: "digit_char (m mod 10) = digit_char (n mod 10)"
        by (simp_all add: number_toString_large)
      from 1(1) [OF m a] have "m div 10 = n div 10" .
      moreover from b have "m mod 10 = n mod 10" by (intro digit_char_inj) simp_all
      ultimately show ?thesis by (metis div_mult_mod_eq)
    qed
  qed
qed

lemma light_id_inj:
  "LightType_string a @ ''_'' @ number_toString m = LightType_string b @ ''_'' @ number_toString n
     \<Longrightarrow> a = b \<and> m = n"
  by (cases a; cases b) (simp_all add: number_toString_inj)

lemma object_id_inj:
  "ObjectKind_type a @ ''_'' @ number_toString m = ObjectKind_type b @ ''_'' @ number_toString n
     \<Longrightarrow> m = n"
  by (cases a; cases b) (simp_all add: number_toString_inj)

lemma object_id_not_model:
  "ObjectKind_type a @ ''_'' @ x \<noteq> ''model_'' @ y"
  by (cases a) simp_all

lemma lightCounter_handle:
  "lightCounter (handle e s) =
     (case e of ClickAddLight ty \<Rightarrow> (lightCounter s)(ty := lightCounter s ty + 1)
      | _ \<Rightarrow> lightCounter s)"
  by (cases e) (simp_all add: op_defs Let_def split: op_splits)

lemma objectCounter_handle:
  "objectCounter (handle e s) =
     (case e of ClickAddObject kind r1 r2 \<Rightarrow> objectCounter s + 1 | _ \<Rightarrow> objectCounter s)"
  by (cases e) (simp_all add: op_defs Let_def split: op_splits)

lemma modelCounter_handle:
  "modelCounter (handle e s) =
     (case e of UploadModel uuid \<Rightarrow> modelCounter s + 1 | _ \<Rightarrow> modelCounter s)"
  by (cases e) (simp_all add: op_defs Let_def split: op_splits)

lemma lightCounter_fire:
  "lightCounter (fire e s) =
     (case light_kind e of Some ty \<Rightarrow> (lightCounter s)(ty := lightCounter s ty + 1)
      | None \<Rightarrow> lightCounter s)"
  using lightCounter_handle [of e s] by (cases e) (auto simp add: fire_def split: option.splits)

lemma objectCounter_fire:
  "objectCounter (fire e s) =
     (case e of ClickAddObject kind r1 r2 \<Rightarrow> objectCounter s + 1 | _ \<Rightarrow> objectCounter s)"
  using objectCounter_handle [of e s] by (cases e) (auto simp add: fire_def split: option.splits)

lemma modelCounter_fire:
  "modelCounter (fire e s) =
     (case e of UploadModel uuid \<Rightarrow> modelCounter s + 1 | _ \<Rightarrow> modelCounter s)"
  using modelCounter_handle [of e s] by (cases e) (auto simp add: fire_def split: option.splits)

lemma light_ids_per_type:
  "light_ids evs s = per_type_ids light_kind LightType_string evs (lightCounter s)"
proof (induction evs arbitrary: s)
  case Nil
  show ?case by simp
next
  case (Cons e es)
  show ?case
    by (cases e) (simp_all add: Cons.IH lightCounter_fire LightController_newId_def fun_upd_def)
qed

lemma object_ids_shared:
  "object_ids evs s = shared_counter_ids evs (objectCounter s) (modelCounter s)"
proof (induction evs arbitrary: s)
  case Nil
  show ?case by simp
next
  case (Cons e es)
  show ?case
    by (cases e)
      (simp_all add: Cons.IH objectCounter_fire modelCounter_fire ObjectController_newId_def
        handleModelUpload_newId_def)
qed

text \<open>Identifiers still to come carry counts above the current ones.\<close>

lemma light_ids_above:
  "x \<in> set (light_ids evs s) \<Longrightarrow>
     \<exists>ty n. x = LightType_string ty @ ''_'' @ number_toString n \<and> lightCounter s ty < n"
proof (induction evs arbitrary: s)
  case Nil
  then show ?case by simp
next
  case (Cons e es)
  from Cons.prems consider "x \<in> set (new_light_id e s)" | "x \<in> set (light_ids es (fire e s))"
    by auto
  then show ?case
  proof cases
    case 1
    then obtain ty where "e = ClickAddLight ty" "x = LightController_newId ty s"
      by (cases e) simp_all
    then have "x = LightType_string ty @ ''_'' @ number_toString (lightCounter s ty + 1)"
      by (simp add: LightController_newId_def)
    then show ?thesis by (metis less_add_one)
  next
    case 2
    from Cons.IH [OF 2] obtain ty n where
      x: "x = LightType_string ty @ ''_'' @ number_toString n"
      and n: "lightCounter (fire e s) ty < n" by blast
    have "lightCounter s ty \<le> lightCounter (fire e s) ty"
      by (simp add: lightCounter_fire split: option.splits)
    then have "lightCounter s ty < n" using n by simp
    then show ?thesis using x by blast
  qed
qed

lemma light_ids_distinct: "distinct (light_ids evs s)"
proof (induction evs arbitrary: s)
  case Nil
  show ?case by simp
next
  case (Cons e es)
  show ?case
  proof (cases e)
    case (ClickAddLight ty)
    have "LightController_newId ty s \<notin> set (light_ids es (fire e s))"
    proof
      assume "LightController_newId ty s \<in> set (light_ids es (fire e s))"
      from light_ids_above [OF this] obtain ty' n where
        x: "LightController_newId ty s = LightType_string ty' @ ''_'' @ number_toString n"
        and n: "lightCounter (fire e s) ty' < n" by blast
      from x have "ty = ty' \<and> lightCounter s ty + 1 = n"
        unfolding LightController_newId_def by (rule light_id_inj)
      then show False using n ClickAddLight by (auto simp add: lightCounter_fire)
    qed
    then show ?thesis using ClickAddLight Cons.IH by simp
  qed (simp_all add: Cons.IH)
qed

lemma object_ids_above:
  "x \<in> set (object_ids evs s) \<Longrightarrow>
     (\<exists>kind n. x = ObjectKind_type kind @ ''_'' @ number_toString n \<and> objectCounter s < n)
     \<or> (\<exists>n. x = ''model_'' @ number_toString n \<and> modelCounter s < n)"
proof (induction evs arbitrary: s)
  case Nil
  then show ?case by simp
next
  case (Cons e es)
  from Cons.prems consider "x \<in> set (new_object_id e s)" | "x \<in> set (object_ids es (fire e s))"
    by auto
  then show ?case
  proof cases
    case 1
    then consider (prim) kind r1 r2 where "e = ClickAddObject kind r1 r2"
        "x = ObjectController_newId (ObjectKind_type kind) s"
      | (model) uuid where "e = UploadModel uuid" "x = handleModelUpload_newId s"
      by (cases e) simp_all
    then show ?thesis
    proof cases
      case prim
      then have "x = ObjectKind_type kind @ ''_'' @ number_toString (objectCounter s + 1)"
        by (simp add: ObjectController_newId_def)
      then show ?thesis by (metis less_add_one)
    next
      case model
      then have "x = ''model_'' @ number_toString (modelCounter s + 1)"
        by (simp add: handleModelUpload_newId_def)
      then show ?thesis by (metis less_add_one)
    qed
  next
    case 2
    have a: "objectCounter s \<le> objectCounter (fire e s)"
      by (simp add: objectCounter_fire split: Event.splits)
    have b: "modelCounter s \<le> modelCounter (fire e s)"
      by (simp add: modelCounter_fire split: Event.splits)
    from Cons.IH [OF 2] show ?thesis
    proof
      assume "\<exists>kind n. x = ObjectKind_type kind @ ''_'' @ number_toString n
                \<and> objectCounter (fire e s) < n"
      then obtain kind n where "x = ObjectKind_type kind @ ''_'' @ number_toString n"
        "objectCounter (fire e s) < n" by blast
      then have "x = ObjectKind_type kind @ ''_'' @ number_toString n \<and> objectCounter s < n"
        using a by simp
      then show ?thesis by blast
    next
      assume "\<exists>n. x = ''model_'' @ number_toString n \<and> modelCounter (fire e s) < n"
      then obtain n where "x = ''model_'' @ number_toString n" "modelCounter (fire e s) < n"
        by blast
      then have "x = ''model_'' @ number_toString n \<and> modelCounter s < n" using b by simp
      then show ?thesis by blast
    qed
  qed
qed

lemma object_ids_distinct: "distinct (object_ids evs s)"
proof (induction evs arbitrary: s)
  case Nil
  show ?case by simp
next
  case (Cons e es)
  show ?case
  proof (cases e)
    case (ClickAddObject kind r1 r2)
    let ?x = "ObjectController_newId (ObjectKind_type kind) s"
    have "?x \<notin> set (object_ids es (fire e s))"
    proof
      assume "?x \<in> set (object_ids es (fire e s))"
      from object_ids_above [OF this] show False
      proof
        assume "\<exists>kind' n. ?x = ObjectKind_type kind' @ ''_'' @ number_toString n
                  \<and> objectCounter (fire e s) < n"
        then obtain kind' n where
          x: "?x = ObjectKind_type kind' @ ''_'' @ number_toString n"
          and n: "objectCounter (fire e s) < n" by blast
        from x have "objectCounter s + 1 = n"
          unfolding ObjectController_newId_def by (rule object_id_inj)
        then show False using n ClickAddObject by (auto simp add: objectCounter_fire)
      next
        assume "\<exists>n. ?x = ''model_'' @ number_toString n \<and> modelCounter (fire e s) < n"
        then show False
          unfolding ObjectController_newId_def using object_id_not_model by blast
      qed
    qed
    then show ?thesis using ClickAddObject Cons.IH by simp
  next
    case (UploadModel uuid)
    let ?x = "handleModelUpload_newId s"
    have "?x \<notin> set (object_ids es (fire e s))"
    proof
      assume "?x \<in> set (object_ids es (fire e s))"
      from object_ids_above [OF this] show False
      proof
        assume "\<exists>kind' n. ?x = ObjectKind_type kind' @ ''_'' @ number_toString n
                  \<and> objectCounter (fire e s) < n"
        then show False
          unfolding handleModelUpload_newId_def using object_id_not_model by metis
      next
        assume "\<exists>n. ?x = ''model_'' @ number_toString n \<and> modelCounter (fire e s) < n"
        then obtain n where x: "?x = ''model_'' @ number_toString n"
          and n: "modelCounter (fire e s) < n" by blast
        from x have "modelCounter s + 1 = n"
          unfolding handleModelUpload_newId_def by (simp add: number_toString_inj)
        then show False using n UploadModel by (auto simp add: modelCounter_fire)
      qed
    qed
    then show ?thesis using UploadModel Cons.IH by simp
  qed (simp_all add: Cons.IH)
qed

lemma App_start_counters:
  "lightCounter App_start = (\<lambda>_. 0)" "objectCounter App_start = 0" "modelCounter App_start = 0"
  by (simp_all add: start_defs Let_def)

lemma generated_ids_are_stored:
  "lc_lights (fire (ClickAddLight ty) s) (LightController_newId ty s) \<noteq> None"
  "sm_lights (fire (ClickAddLight ty) s) (LightController_newId ty s) \<noteq> None"
  "oc_objects (fire (ClickAddObject kind r1 r2) s)
     (ObjectController_newId (ObjectKind_type kind) s) \<noteq> None"
  "sm_objects (fire (ClickAddObject kind r1 r2) s)
     (ObjectController_newId (ObjectKind_type kind) s) \<noteq> None"
  "(handleModelUpload_newId s, createObjectURL uuid) \<in> set (loading (fire (UploadModel uuid) s))"
proof -
  show "lc_lights (fire (ClickAddLight ty) s) (LightController_newId ty s) \<noteq> None"
    using addLight_record(2) [of ty s] by (auto simp add: fire_def)
  show "sm_lights (fire (ClickAddLight ty) s) (LightController_newId ty s) \<noteq> None"
    by (simp add: fire_def addLight_effect(1))
  have sw: "\<exists>g. addObject_switch (ObjectKind_type kind) = Inr g"
    by (cases kind) (simp_all add: addObject_switch_def)
  then obtain g where g: "addObject_switch (ObjectKind_type kind) = Inr g" by blast
  show "oc_objects (fire (ClickAddObject kind r1 r2) s)
     (ObjectController_newId (ObjectKind_type kind) s) \<noteq> None"
    using addObject_effect(4) [OF g, of r1 r2 s] by (auto simp add: fire_def)
  show "sm_objects (fire (ClickAddObject kind r1 r2) s)
     (ObjectController_newId (ObjectKind_type kind) s) \<noteq> None"
    by (simp add: fire_def addObject_effect(1) [OF g])
  show "(handleModelUpload_newId s, createObjectURL uuid)
          \<in> set (loading (fire (UploadModel uuid) s))"
    by (simp add: fire_def handleModelUpload_def handleModelUpload_newId_def log_effect_def
        Let_def)
qed

text \<open>
  C1, as the claim states it, has every identifier made of the type tag and a counter kept
  per type. The object controller keeps one counter for all four primitives: a box and
  then a sphere get \<open>box_1\<close> and \<open>sphere_2\<close>, where a counter per type gives
  \<open>sphere_1\<close>.
\<close>

theorem object_counter_is_not_per_type:
  "object_ids [ClickAddObject Box 0 0, ClickAddObject Sphere 0 0] App_start
     = [''box_1'', ''sphere_2'']
   \<and> per_type_ids object_tag (\<lambda>tag. tag) [ClickAddObject Box 0 0, ClickAddObject Sphere 0 0]
       (\<lambda>_. 0) = [''box_1'', ''sphere_1'']
   \<and> object_ids [ClickAddObject Box 0 0, ClickAddObject Sphere 0 0] App_start
       \<noteq> per_type_ids object_tag (\<lambda>tag. tag)
           [ClickAddObject Box 0 0, ClickAddObject Sphere 0 0] (\<lambda>_. 0)"
  by (simp add: start_defs handler_defs number_toString_1 number_toString_2 Let_def)

text \<open>
  C1, amended. Along every run of events from the start of the application, the
  identifier of a new light is its type tag, an underscore and a counter kept per kind of
  light; the identifier of a new object is its type tag, an underscore and a counter that
  all primitives share, or \<open>model\<close>, an underscore and the counter of imported
  models. No event but an add moves a counter. The identifiers generated for lights are
  pairwise distinct, and so are those generated for objects, whatever is removed in
  between. Each generated identifier is the key under which the add stores the entity
  (or, for an upload, the identifier of the load it puts in flight).
\<close>

theorem identifiers_never_reused:
  "light_ids evs App_start = per_type_ids light_kind LightType_string evs (\<lambda>_. 0)
   \<and> object_ids evs App_start = shared_counter_ids evs 0 0
   \<and> distinct (light_ids evs App_start)
   \<and> distinct (object_ids evs App_start)
   \<and> lc_lights (fire (ClickAddLight ty) s) (LightController_newId ty s) \<noteq> None
   \<and> sm_lights (fire (ClickAddLight ty) s) (LightController_newId ty s) \<noteq> None
   \<and> oc_objects (fire (ClickAddObject kind r1 r2) s)
        (ObjectController_newId (ObjectKind_type kind) s) \<noteq> None
   \<and> sm_objects (fire (ClickAddObject kind r1 r2) s)
        (ObjectController_newId (ObjectKind_type kind) s) \<noteq> None
   \<and> (handleModelUpload_newId s, createObjectURL uuid)
        \<in> set (loading (fire (UploadModel uuid) s))"
  using light_ids_per_type [of evs App_start] object_ids_shared [of evs App_start]
    light_ids_distinct [of evs App_start] object_ids_distinct [of evs App_start]
    generated_ids_are_stored(1,2) [of ty s]
    generated_ids_are_stored(3,4) [of kind r1 r2 s] generated_ids_are_stored(5) [of s uuid]
  by (simp add: App_start_counters)

theorem identifiers_never_reused_witness:
  "light_ids [ClickAddLight point, ClickRemoveLight ''point_1'', ClickAddLight point,
              ClickAddLight spot, ClickAddObject Box 0 0, UploadModel ''u1'',
              ClickRemoveObject ''box_1'', ClickAddObject Sphere 0 0] App_start
     = [''point_1'', ''point_2'', ''spot_1'']
   \<and> object_ids [ClickAddLight point, ClickRemoveLight ''point_1'', ClickAddLight point,
              ClickAddLight spot, ClickAddObject Box 0 0, UploadModel ''u1'',
              ClickRemoveObject ''box_1'', ClickAddObject Sphere 0 0] App_start
     = [''box_1'', ''model_1'', ''sphere_2'']
   \<and> distinct (light_ids [ClickAddLight point, ClickRemoveLight ''point_1'',
              ClickAddLight point, ClickAddLight spot, ClickAddObject Box 0 0,
              UploadModel ''u1'', ClickRemoveObject ''box_1'', ClickAddObject Sphere 0 0]
              App_start)"
  using identifiers_never_reused
    [of "[ClickAddLight point, ClickRemoveLight ''point_1'', ClickAddLight point,
          ClickAddLight spot, ClickAddObject Box 0 0, UploadModel ''u1'',
          ClickRemoveObject ''box_1'', ClickAddObject Sphere 0 0]"]
  by (simp add: number_toString_1 number_toString_2)

section \<open>Scaling one axis\<close>

text \<open>
  The handler of a scale slider takes the two other coordinates from the metadata record.
  Where the record is stored under its own identifier and agrees with the object in the
  registry on the scale, moving the slider of one axis sets that coordinate on both and
  keeps the two others on both.
\<close>

lemma objectScale_oninput_in_sync:
  assumes "oc_objects s i = Some objectData" and "sm_objects s i = Some object"
    and "od_id objectData = i" and "o_scale (heap s object) = od_scale objectData"
  shows "o_scale (heap (objectScale_oninput objectData 0 v s) object)
           = Vector3 v (vy (o_scale (heap s object))) (vz (o_scale (heap s object)))"
    and "o_scale (heap (objectScale_oninput objectData 1 v s) object)
           = Vector3 (vx (o_scale (heap s object))) v (vz (o_scale (heap s object)))"
    and "o_scale (heap (objectScale_oninput objectData 2 v s) object)
           = Vector3 (vx (o_scale (heap s object))) (vy (o_scale (heap s object))) v"
    and "map_option od_scale (oc_objects (objectScale_oninput objectData 0 v s) i)
           = Some (Vector3 v (vy (od_scale objectData)) (vz (od_scale objectData)))"
    and "map_option od_scale (oc_objects (objectScale_oninput objectData 1 v s) i)
           = Some (Vector3 (vx (od_scale objectData)) v (vz (od_scale objectData)))"
    and "map_option od_scale (oc_objects (objectScale_oninput objectData 2 v s) i)
           = Some (Vector3 (vx (od_scale objectData)) (vy (od_scale objectData)) v)"
  using assms
  by (simp_all add: objectScale_oninput_def updateObjectScale_def SceneManager_getObject_def
      Let_def)

text \<open>
  The scenario of the specification: a box is added and its scale X is set to 3. Record
  and mesh both have the scale \<open>(3, 1, 1)\<close>.
\<close>

lemma box_scale_x_scenario:
  "sm_objects (run [ClickAddObject Box 0 0, InputObjectScale ''box_1'' 0 3] App_start) ''box_1''
     = Some 5
   \<and> o_scale (heap (run [ClickAddObject Box 0 0, InputObjectScale ''box_1'' 0 3] App_start) 5)
       = Vector3 3 1 1
   \<and> map_option od_scale
        (oc_objects (run [ClickAddObject Box 0 0, InputObjectScale ''box_1'' 0 3] App_start)
           ''box_1'') = Some (Vector3 3 1 1)"
  by (simp add: start_defs handler_defs number_toString_1 Let_def
      objectScale_oninput_def updateObjectScale_def closure_record_def)

text \<open>
  C9. The record of an imported model does not agree with the object in the registry:
  the success callback of the load rescales a model larger than 5 units and records the
  scale \<open>(1, 1, 1)\<close>. For a model of size 10 the
  object has scale \<open>(1/2, 1/2, 1/2)\<close>; setting the X slider to 3 writes \<open>(3, 1, 1)\<close>
  to the object, so Y and Z change.
\<close>

theorem imported_model_scale_edit_resets_other_axes:
  "sm_objects (run [UploadModel ''u1'',
       LoaderOnLoad ''model_1'' ''blob:u1'' (Vector3 0 0 0) (Vector3 10 10 10)] App_start)
       ''model_1'' = Some 5
   \<and> o_scale (heap (run [UploadModel ''u1'',
       LoaderOnLoad ''model_1'' ''blob:u1'' (Vector3 0 0 0) (Vector3 10 10 10)] App_start) 5)
       = Vector3 (1 / 2) (1 / 2) (1 / 2)
   \<and> map_option od_scale (oc_objects (run [UploadModel ''u1'',
       LoaderOnLoad ''model_1'' ''blob:u1'' (Vector3 0 0 0) (Vector3 10 10 10)] App_start)
       ''model_1'') = Some (Vector3 1 1 1)
   \<and> o_scale (heap (run [UploadModel ''u1'',
       LoaderOnLoad ''model_1'' ''blob:u1'' (Vector3 0 0 0) (Vector3 10 10 10),
       InputObjectScale ''model_1'' 0 3] App_start) 5)
       = Vector3 3 1 1
   \<and> map_option od_scale (oc_objects (run [UploadModel ''u1'',
       LoaderOnLoad ''model_1'' ''blob:u1'' (Vector3 0 0 0) (Vector3 10 10 10),
       InputObjectScale ''model_1'' 0 3] App_start) ''model_1'') = Some (Vector3 3 1 1)"
  by (simp add: start_defs handler_defs upload_defs number_toString_1 Let_def
      objectScale_oninput_def updateObjectScale_def closure_record_def)

end
